theory Spec2Isabelle
  imports Main
begin

section \<open>JavaScript values\<close>

text \<open>
  The integration (\<open>integration.js\<close>) is dynamically typed. Where the code itself inspects
  the type of a value (\<open>typeof\<close>, truthiness, property reads on a value of unknown shape)
  the value is a \<open>jsval\<close>: the JSON-like fragment of JavaScript values, numbers being the
  integers (no fractions, no \<open>NaN\<close>), strings being lists of 8-bit characters. An
  object is the association list of its own enumerable properties, in insertion order,
  with distinct keys; a property read takes the first binding of the key.
\<close>

datatype jsval =
    JUndefined
  | JNull
  | JBool bool
  | JNum int
  | JStr string
  | JArr "jsval list"
  | JObj "(string \<times> jsval) list"

datatype error = TypeError

text \<open>The operator \<open>typeof\<close>.\<close>

fun typeof :: "jsval \<Rightarrow> string" where
  "typeof JUndefined = ''undefined''"
| "typeof JNull = ''object''"
| "typeof (JBool b) = ''boolean''"
| "typeof (JNum n) = ''number''"
| "typeof (JStr s) = ''string''"
| "typeof (JArr xs) = ''object''"
| "typeof (JObj kvs) = ''object''"

text \<open>ToBoolean: what \<open>if (v)\<close> and \<open>v && ...\<close> test.\<close>

fun truthy :: "jsval \<Rightarrow> bool" where
  "truthy JUndefined = False"
| "truthy JNull = False"
| "truthy (JBool b) = b"
| "truthy (JNum n) = (n \<noteq> 0)"
| "truthy (JStr s) = (s \<noteq> [])"
| "truthy (JArr xs) = True"
| "truthy (JObj kvs) = True"

text \<open>
  The property read \<open>v.code\<close> of a value that is neither \<open>undefined\<close> nor \<open>null\<close>
  (on those it throws; every read of the source is guarded by \<open>v &&\<close>). Only an object
  has a property of that name: strings, numbers, booleans and arrays answer
  \<open>undefined\<close>.
\<close>

fun getProp :: "jsval \<Rightarrow> string \<Rightarrow> jsval" where
  "getProp (JObj kvs) k = (case map_of kvs k of Some v \<Rightarrow> v | None \<Rightarrow> JUndefined)"
| "getProp v k = JUndefined"

subsection \<open>Numbers and values as strings\<close>

definition digit :: "nat \<Rightarrow> char" where
  "digit d = char_of (48 + d)"

fun decimal :: "nat \<Rightarrow> string" where
  "decimal n = (if n < 10 then [digit n] else decimal (n div 10) @ [digit (n mod 10)])"

declare decimal.simps [simp del]

definition showInt :: "int \<Rightarrow> string" where
  "showInt i = (if i < 0 then CHR ''-'' # decimal (nat (- i)) else decimal (nat i))"

definition join :: "string \<Rightarrow> string list \<Rightarrow> string" where
  "join sep xs = (case xs of [] \<Rightarrow> [] | y # ys \<Rightarrow> foldl (\<lambda>acc s. acc @ sep @ s) y ys)"

text \<open>
  ToString, as string concatenation (\<open>'...' + v\<close>) applies it: an array is its elements
  joined by commas (\<open>undefined\<close> and \<open>null\<close> elements empty), a plain object is
  \<open>[object Object]\<close>.
\<close>

fun toString :: "jsval \<Rightarrow> string" where
  "toString JUndefined = ''undefined''"
| "toString JNull = ''null''"
| "toString (JBool b) = (if b then ''true'' else ''false'')"
| "toString (JNum n) = showInt n"
| "toString (JStr s) = s"
| "toString (JArr xs) =
     join '','' (map (\<lambda>x. case x of JUndefined \<Rightarrow> [] | JNull \<Rightarrow> [] | _ \<Rightarrow> toString x) xs)"
| "toString (JObj kvs) = ''[object Object]''"

subsection \<open>JSON.stringify\<close>

definition hexDigit :: "nat \<Rightarrow> char" where
  "hexDigit d = (if d < 10 then char_of (48 + d) else char_of (87 + d))"

text \<open>QuoteJSONString on the characters of a string.\<close>

definition quoteChar :: "char \<Rightarrow> string" where
  "quoteChar c =
     (if c = CHR 0x08 then [CHR 0x5C, CHR ''b'']
      else if c = CHR 0x09 then [CHR 0x5C, CHR ''t'']
      else if c = CHR 0x0A then [CHR 0x5C, CHR ''n'']
      else if c = CHR 0x0C then [CHR 0x5C, CHR ''f'']
      else if c = CHR 0x0D then [CHR 0x5C, CHR ''r'']
      else if c = CHR 0x22 then [CHR 0x5C, CHR 0x22]
      else if c = CHR 0x5C then [CHR 0x5C, CHR 0x5C]
      else if of_char c < (32::nat)
        then [CHR 0x5C, CHR ''u'', CHR ''0'', CHR ''0''] @ [hexDigit (of_char c div 16), hexDigit (of_char c mod 16)]
      else [c])"

definition quoteJSONString :: "string \<Rightarrow> string" where
  "quoteJSONString s = [CHR 0x22] @ concat (map quoteChar s) @ [CHR 0x22]"

text \<open>
  \<open>JSON.stringify(v)\<close> without indentation, for a value that is not \<open>undefined\<close>: an
  \<open>undefined\<close> array element is written \<open>null\<close>, a property whose value is
  \<open>undefined\<close> is left out.
\<close>

fun JSON_stringify :: "jsval \<Rightarrow> string" where
  "JSON_stringify JUndefined = ''null''"
| "JSON_stringify JNull = ''null''"
| "JSON_stringify (JBool b) = (if b then ''true'' else ''false'')"
| "JSON_stringify (JNum n) = showInt n"
| "JSON_stringify (JStr s) = quoteJSONString s"
| "JSON_stringify (JArr xs) = ''['' @ join '','' (map JSON_stringify xs) @ '']''"
| "JSON_stringify (JObj kvs) =
     ''{'' @ join '',''
        (map (\<lambda>kv. quoteJSONString (fst kv) @ '':'' @ JSON_stringify (snd kv))
             (filter (\<lambda>kv. snd kv \<noteq> JUndefined) kvs)) @ ''}''"

section \<open>Options and their validation\<close>

text \<open>
  The options object the host passes to \<open>doLookup\<close>. The three connection fields are
  values of any type (\<open>JUndefined\<close> when the property is absent): \<open>_validateOptions\<close>
  inspects their type. The three flags are read for their truthiness only and are
  booleans here.
\<close>

record options =
  hostname :: jsval
  username :: jsval
  apiKey :: jsval
  lookupIps :: bool
  lookupHashes :: bool
  lookupDomains :: bool

text \<open>
  \<open>_validateOptions\<close> (an Isabelle name cannot start with an underscore; the source's
  names are kept without it). \<open>None\<close> is the \<open>null\<close> of the source, \<open>Some msg\<close> the
  message returned. \<open>v.length === 0\<close> is read on a value known to be a string.
\<close>

definition strLength :: "jsval \<Rightarrow> nat" where
  "strLength v = (case v of JStr s \<Rightarrow> length s | _ \<Rightarrow> 0)"

definition validateOptions :: "options \<Rightarrow> string option" where
  "validateOptions opts =
     (if typeof (hostname opts) \<noteq> ''string'' then Some ''No hostname set''
      else if strLength (hostname opts) = 0 then Some ''Hostname must be at least 1 character''
      else if typeof (apiKey opts) \<noteq> ''string'' then Some ''No API key set''
      else if strLength (apiKey opts) = 0 then Some ''API key must be at least 1 character''
      else if typeof (username opts) \<noteq> ''string'' then Some ''No username set''
      else if strLength (username opts) = 0 then Some ''Username must be at least 1 character''
      else None)"

section \<open>Indicators, remote records and results\<close>

text \<open>
  The entity object of the host (the doc comment of \<open>doLookup\<close> lists its properties):
  the flags the dispatcher reads, as booleans for their truthiness, the hash type and the
  raw value (\<open>value\<close> in the source), both strings.
\<close>

record entity =
  isIP :: bool
  isMD5 :: bool
  isSHA1 :: bool
  isSHA256 :: bool
  isDomain :: bool
  isURL :: bool
  hashType :: string
  entityValue :: string

text \<open>
  A record of the remote repository, one element of \<open>body.objects\<close>. The keys
  (\<open>_id\<close>, \<open>ip\<close>, \<open>domain\<close>, \<open>md5\<close>) and the \<open>name\<close> of a source or campaign entry
  are only ever concatenated into strings or passed on, so they are values of any type
  (\<open>JUndefined\<close> when absent). \<open>source\<close>, \<open>campaign\<close> and \<open>bucket_list\<close> are guarded by
  \<open>Array.isArray\<close>: \<open>None\<close> when the property is not an array, \<open>Some\<close> of the elements
  when it is; bucket labels are strings. The remaining properties are passed on
  untouched.
\<close>

record named =
  name :: jsval

record crits_object =
  objectId :: jsval
  ip :: jsval
  domain :: jsval
  md5 :: jsval
  filename :: jsval
  filenames :: jsval
  source :: "named list option"
  campaign :: "named list option"
  bucket_list :: "string list option"
  description :: jsval
  modified :: jsval
  threat_types :: jsval

text \<open>
  The detail objects handed to the host are object literals of the source. They are kept
  as property lists, key by key as the literal is written, so that a later read by
  property name finds exactly the properties the literal has (\<open>None\<close> is \<open>undefined\<close>).
\<close>

datatype field =
    FString string
  | FValue jsval
  | FNamed "named list option"
  | FLabels "string list option"

type_synonym detail = "(string \<times> field) list"

definition readProp :: "detail \<Rightarrow> string \<Rightarrow> field option" where
  "readProp obj k = map_of obj k"

record hash_details =
  detailsType :: string
  hashSamples :: "detail list"
  hashIndicators :: "detail list"

datatype details = RecordDetails detail | HashDetails hash_details

record data =
  summary :: "string list"
  details :: details

text \<open>
  A lookup result: \<open>displayValue\<close> is \<open>None\<close> when the literal has no such property,
  \<open>data\<close> is \<open>None\<close> when it is \<open>null\<close>.
\<close>

record lookup_result =
  entity :: entity
  displayValue :: "jsval option"
  data :: "data option"

section \<open>URL construction\<close>

definition endsWith :: "string \<Rightarrow> string \<Rightarrow> bool" where
  "endsWith s suffix =
     (length suffix \<le> length s \<and> drop (length s - length suffix) s = suffix)"

definition substring :: "string \<Rightarrow> nat \<Rightarrow> nat \<Rightarrow> string" where
  "substring s a b =
     (let a' = min a (length s); b' = min b (length s)
      in take (max a' b' - min a' b') (drop (min a' b') s))"

text \<open>\<open>toLowerCase\<close> and \<open>toUpperCase\<close> on the ASCII letters.\<close>

definition lowerChar :: "char \<Rightarrow> char" where
  "lowerChar c =
     (if (65::nat) \<le> of_char c \<and> of_char c \<le> (90::nat) then char_of (of_char c + (32::nat)) else c)"

definition upperChar :: "char \<Rightarrow> char" where
  "upperChar c =
     (if (97::nat) \<le> of_char c \<and> of_char c \<le> (122::nat) then char_of (of_char c - (32::nat)) else c)"

definition toLowerCase :: "string \<Rightarrow> string" where
  "toLowerCase s = map lowerChar s"

definition toUpperCase :: "string \<Rightarrow> string" where
  "toUpperCase s = map upperChar s"

text \<open>
  \<open>_getFormattedHostname\<close>: \<open>hostname.endsWith\<close> exists on a string only; on any other
  value the call throws a TypeError.
\<close>

definition getFormattedHostname :: "options \<Rightarrow> error + string" where
  "getFormattedHostname opts =
     (case hostname opts of
        JStr h \<Rightarrow> Inr (if endsWith h ''/'' then substring h 0 (length h - 1) else h)
      | _ \<Rightarrow> Inl TypeError)"

definition getUriAuthQueryParam :: "options \<Rightarrow> string" where
  "getUriAuthQueryParam opts =
     ''&username='' @ toString (username opts) @ ''&api_key='' @ toString (apiKey opts)"

definition getHashSampleUri :: "string \<Rightarrow> string \<Rightarrow> options \<Rightarrow> error + string" where
  "getHashSampleUri hashTy val opts =
     (case getFormattedHostname opts of
        Inl e \<Rightarrow> Inl e
      | Inr h \<Rightarrow> Inr (h @ ''/api/v1/samples/?only=filename,campaign,description,modified,source&'' @
                 ''c-'' @ toLowerCase hashTy @ ''='' @ toLowerCase val @ getUriAuthQueryParam opts))"

definition getPatchDescriptionUri :: "string \<Rightarrow> jsval \<Rightarrow> options \<Rightarrow> error + string" where
  "getPatchDescriptionUri ty oid opts =
     (case getFormattedHostname opts of
        Inl e \<Rightarrow> Inl e
      | Inr h \<Rightarrow> Inr (h @ ''/api/v1/'' @ ty @ ''/'' @ toString oid @ getUriAuthQueryParam opts))"

definition getIpUri :: "string \<Rightarrow> options \<Rightarrow> error + string" where
  "getIpUri val opts =
     (case getFormattedHostname opts of
        Inl e \<Rightarrow> Inl e
      | Inr h \<Rightarrow> Inr (h @ ''/api/v1/ips/?c-ip='' @ val @ getUriAuthQueryParam opts))"

definition getHashUri :: "string \<Rightarrow> string \<Rightarrow> options \<Rightarrow> error + string" where
  "getHashUri hashTy val opts =
     (case getFormattedHostname opts of
        Inl e \<Rightarrow> Inl e
      | Inr h \<Rightarrow> Inr (h @ ''/api/v1/indicators/?c-type='' @ toUpperCase hashTy @
                 ''&c-lower='' @ toLowerCase val @ getUriAuthQueryParam opts))"

definition getCritsHashUrl :: "options \<Rightarrow> crits_object \<Rightarrow> error + string" where
  "getCritsHashUrl opts obj =
     (case getFormattedHostname opts of
        Inl e \<Rightarrow> Inl e
      | Inr h \<Rightarrow> Inr (h @ ''/indicators/details/'' @ toString (objectId obj) @ ''/''))"

definition getCritsSampleUrl :: "options \<Rightarrow> crits_object \<Rightarrow> error + string" where
  "getCritsSampleUrl opts obj =
     (case getFormattedHostname opts of
        Inl e \<Rightarrow> Inl e
      | Inr h \<Rightarrow> Inr (h @ ''/samples/details/'' @ toString (md5 obj) @ ''/''))"

definition getCritsIpUrl :: "options \<Rightarrow> crits_object \<Rightarrow> error + string" where
  "getCritsIpUrl opts obj =
     (case getFormattedHostname opts of
        Inl e \<Rightarrow> Inl e
      | Inr h \<Rightarrow> Inr (h @ ''/ips/details/'' @ toString (ip obj) @ ''/''))"

definition getCritsDomainUri :: "string \<Rightarrow> options \<Rightarrow> error + string" where
  "getCritsDomainUri val opts =
     (case getFormattedHostname opts of
        Inl e \<Rightarrow> Inl e
      | Inr h \<Rightarrow> Inr (h @ ''/api/v1/domains/?c-domain='' @ val @ getUriAuthQueryParam opts))"

definition getCritsDomainUrl :: "options \<Rightarrow> crits_object \<Rightarrow> error + string" where
  "getCritsDomainUrl opts obj =
     (case getFormattedHostname opts of
        Inl e \<Rightarrow> Inl e
      | Inr h \<Rightarrow> Inr (h @ ''/domains/details/'' @ toString (domain obj) @ ''/''))"

section \<open>Error classification\<close>

text \<open>
  What the HTTP client hands to a request callback: the transport error (a value of any
  type, \<open>null\<close> or \<open>undefined\<close> when there is none), the response (\<open>None\<close> when
  \<open>undefined\<close>) with its integer status code, and the parsed body (\<open>None\<close> when
  \<open>undefined\<close>) with its \<open>objects\<close> array.
\<close>

record response =
  statusCode :: int

record body =
  objects :: "crits_object list"

record reply =
  replyErr :: jsval
  replyResponse :: "response option"
  replyBody :: "body option"

text \<open>
  \<open>_getErrorMessage\<close>: \<open>Inr None\<close> is the \<open>null\<close> it returns, \<open>Inr (Some msg)\<close> a
  message, \<open>Inl TypeError\<close> the exception of reading \<open>statusCode\<close> of an undefined
  response. In the first branch \<open>err.code\<close> is a string, which \<open>toString\<close> leaves as it
  is.
\<close>

definition getErrorMessage :: "jsval \<Rightarrow> response option \<Rightarrow> body option \<Rightarrow> error + string option" where
  "getErrorMessage err resp bdy =
     (if truthy err \<and> typeof (getProp err ''code'') = ''string''
        then Inr (Some (toString (getProp err ''code'')))
      else if truthy err \<and> typeof err = ''object''
        then Inr (Some (JSON_stringify err))
      else (case resp of
              None \<Rightarrow> Inl TypeError
            | Some r \<Rightarrow>
                if statusCode r = 401
                  then Inr (Some ''Unauthorized to access CRITs. Please check username and API key'')
                else if statusCode r \<noteq> 200
                  then Inr (Some ''There was an unknown error accessing CRITs'')
                else Inr None))"

section \<open>Tags\<close>

definition createSourceMarker :: string where
  \<open>createSourceMarker = '' <i class="bts bt-fw bt-map-marker integration-text-bold-color"></i>''\<close>

definition createCampaignMarkger :: string where
  \<open>createCampaignMarkger = '' <i class="fa fa-fw fa-bullhorn integration-text-bold-color"></i>''\<close>

definition bugMarker :: string where
  \<open>bugMarker = '' <i class="fa fa-bug integration-text-bold-color"></i>''\<close>

subsection \<open>Tags of one record\<close>

text \<open>
  The loops of \<open>_createTags\<close>, by their index \<open>i\<close>:
  \<open>for (var i = 0; i < xs.length; i++) tags.push(xs[i].name + marker)\<close> and
  \<open>for (var i = 0; i < bl.length && i < 5; i++) tags.push(bl[i])\<close>.
\<close>

function pushNames :: "named list \<Rightarrow> string \<Rightarrow> nat \<Rightarrow> string list \<Rightarrow> string list" where
  "pushNames xs marker i tags =
     (if i < length xs
        then pushNames xs marker (Suc i) (tags @ [toString (name (xs ! i)) @ marker])
      else tags)"
  by pat_completeness auto
termination
  by (relation "measure (\<lambda>(xs, marker, i, tags). length xs - i)") auto

declare pushNames.simps [simp del]

function pushLabels :: "string list \<Rightarrow> nat \<Rightarrow> string list \<Rightarrow> string list" where
  "pushLabels bl i tags =
     (if i < length bl \<and> i < 5
        then pushLabels bl (Suc i) (tags @ [bl ! i])
      else tags)"
  by pat_completeness auto
termination
  by (relation "measure (\<lambda>(bl, i, tags). length bl - i)") auto

declare pushLabels.simps [simp del]

definition createTags :: "crits_object \<Rightarrow> string list" where
  "createTags obj =
     (let tags = [];
          tags = (case source obj of
                    Some xs \<Rightarrow> if length xs > 0 then pushNames xs createSourceMarker 0 tags else tags
                  | None \<Rightarrow> tags);
          tags = (case campaign obj of
                    Some xs \<Rightarrow> if length xs > 0 then pushNames xs createCampaignMarkger 0 tags else tags
                  | None \<Rightarrow> tags);
          tags = (case bucket_list obj of
                    Some bl \<Rightarrow> if length bl > 0 then pushLabels bl 0 tags else tags
                  | None \<Rightarrow> tags)
      in tags)"

subsection \<open>Merged tags of a hash lookup\<close>

text \<open>
  A JavaScript \<open>Set\<close> of strings is the list of its elements in insertion order;
  \<open>add\<close> leaves the set alone when the string is in it already.
\<close>

definition setAdd :: "string list \<Rightarrow> string \<Rightarrow> string list" where
  "setAdd s x = (if x \<in> set s then s else s @ [x])"

record tag_sets =
  uniqueSources :: "string list"
  uniqueCampaigns :: "string list"
  uniqueBucketLists :: "string list"

text \<open>
  \<open>Array.isArray(sample.source)\<close> followed by the \<open>forEach\<close> that adds
  \<open>source.name + marker\<close> to a set: a property that is absent or not an array adds
  nothing.
\<close>

definition addNames :: "string \<Rightarrow> field option \<Rightarrow> string list \<Rightarrow> string list" where
  "addNames marker f s =
     (case f of
        Some (FNamed (Some xs)) \<Rightarrow> foldl (\<lambda>acc x. setAdd acc (toString (name x) @ marker)) s xs
      | _ \<Rightarrow> s)"

definition addLabels :: "field option \<Rightarrow> string list \<Rightarrow> string list" where
  "addLabels f s =
     (case f of
        Some (FLabels (Some bl)) \<Rightarrow> foldl setAdd s bl
      | _ \<Rightarrow> s)"

text \<open>
  The body of the two \<open>forEach\<close> loops of \<open>_createHashTags\<close> (the same for a sample and
  for an indicator): it reads the properties \<open>source\<close>, \<open>campaign\<close> and \<open>bucket_list\<close>
  of the element.
\<close>

definition collectTags :: "tag_sets \<Rightarrow> detail \<Rightarrow> tag_sets" where
  "collectTags st obj =
     \<lparr> uniqueSources = addNames createSourceMarker (readProp obj ''source'') (uniqueSources st),
       uniqueCampaigns = addNames createCampaignMarkger (readProp obj ''campaign'') (uniqueCampaigns st),
       uniqueBucketLists = addLabels (readProp obj ''bucket_list'') (uniqueBucketLists st) \<rparr>"

definition createHashTags :: "hash_details \<Rightarrow> string list" where
  "createHashTags dets =
     (let tags = (if length (hashSamples dets) = 1
                    then [decimal (length (hashSamples dets)) @ bugMarker]
                  else if length (hashSamples dets) > 1
                    then [decimal (length (hashSamples dets)) @ bugMarker]
                  else []);
          st = foldl collectTags
                 \<lparr> uniqueSources = [], uniqueCampaigns = [], uniqueBucketLists = [] \<rparr>
                 (hashSamples dets);
          st = foldl collectTags st (hashIndicators dets)
      in tags @ uniqueSources st @ uniqueCampaigns st @ uniqueBucketLists st)"

section \<open>The lookups\<close>

text \<open>
  How a lookup ends, seen from the callback it was given: an exception raised inside the
  request callback (never caught: nothing in the source has a \<open>try\<close>), \<open>cb(error)\<close>
  with a message, or \<open>cb(null, x)\<close>.
\<close>

datatype 'a completion = Threw error | Failed string | Succeeded 'a

text \<open>A loop that pushes one built element per input element, and stops at an exception.\<close>

fun mapE :: "('a \<Rightarrow> error + 'b) \<Rightarrow> 'a list \<Rightarrow> error + 'b list" where
  "mapE f [] = Inr []"
| "mapE f (x # xs) =
     (case f x of
        Inl e \<Rightarrow> Inl e
      | Inr y \<Rightarrow> (case mapE f xs of Inl e \<Rightarrow> Inl e | Inr ys \<Rightarrow> Inr (y # ys)))"

subsection \<open>IP and domain lookup\<close>

definition ipResult :: "entity \<Rightarrow> options \<Rightarrow> crits_object \<Rightarrow> error + lookup_result" where
  "ipResult entityObj opts obj =
     (case getCritsIpUrl opts obj of
        Inl e \<Rightarrow> Inl e
      | Inr critsLookupUrl \<Rightarrow>
          (case getPatchDescriptionUri ''ips'' (objectId obj) opts of
             Inl e \<Rightarrow> Inl e
           | Inr patchUri \<Rightarrow>
               Inr \<lparr> entity = entityObj,
                     displayValue = Some (ip obj),
                     data = Some \<lparr> summary = createTags obj,
                                   details = RecordDetails
                                     [(''type'', FString ''ip''),
                                      (''critsLookupUrl'', FString critsLookupUrl),
                                      (''bucketList'', FLabels (bucket_list obj)),
                                      (''campaign'', FNamed (campaign obj)),
                                      (''description'', FValue (description obj)),
                                      (''modified'', FValue (modified obj)),
                                      (''source'', FNamed (source obj)),
                                      (''threatTypes'', FValue (threat_types obj)),
                                      (''patchDescriptionUri'', FString patchUri)] \<rparr> \<rparr>))"

definition domainResult :: "entity \<Rightarrow> options \<Rightarrow> crits_object \<Rightarrow> error + lookup_result" where
  "domainResult entityObj opts obj =
     (case getCritsDomainUrl opts obj of
        Inl e \<Rightarrow> Inl e
      | Inr critsLookupUrl \<Rightarrow>
          (case getPatchDescriptionUri ''domains'' (objectId obj) opts of
             Inl e \<Rightarrow> Inl e
           | Inr patchUri \<Rightarrow>
               Inr \<lparr> entity = entityObj,
                     displayValue = Some (domain obj),
                     data = Some \<lparr> summary = createTags obj,
                                   details = RecordDetails
                                     [(''type'', FString ''domain''),
                                      (''critsLookupUrl'', FString critsLookupUrl),
                                      (''bucketList'', FLabels (bucket_list obj)),
                                      (''campaign'', FNamed (campaign obj)),
                                      (''description'', FValue (description obj)),
                                      (''modified'', FValue (modified obj)),
                                      (''source'', FNamed (source obj)),
                                      (''threatTypes'', FValue (threat_types obj)),
                                      (''patchDescriptionUri'', FString patchUri)] \<rparr> \<rparr>))"

text \<open>
  The request callback of \<open>_lookupIP\<close> and of \<open>_lookupDomains\<close>, which differ in the
  function that shapes one record. Reading \<open>body.objects\<close> of an undefined body throws.
\<close>

definition recordsCallback ::
  "(entity \<Rightarrow> options \<Rightarrow> crits_object \<Rightarrow> error + lookup_result) \<Rightarrow>
   entity \<Rightarrow> options \<Rightarrow> reply \<Rightarrow> lookup_result list completion" where
  "recordsCallback shape entityObj opts r =
     (case getErrorMessage (replyErr r) (replyResponse r) (replyBody r) of
        Inl e \<Rightarrow> Threw e
      | Inr (Some msg) \<Rightarrow> Failed msg
      | Inr None \<Rightarrow>
          (case replyBody r of
             None \<Rightarrow> Threw TypeError
           | Some b \<Rightarrow>
               (let critObjects = objects b in
                if length critObjects = 0
                  then Succeeded [\<lparr> entity = entityObj, displayValue = None, data = None \<rparr>]
                else (case mapE (shape entityObj opts) critObjects of
                        Inl e \<Rightarrow> Threw e
                      | Inr results \<Rightarrow> Succeeded results))))"

text \<open>
  A lookup first builds its URI and issues the request (an exception there leaves the
  lookup synchronously, \<open>Inl\<close>); its result is the list of the URIs requested and the
  way the lookup ends once the reply \<open>http uri\<close> has arrived.
\<close>

definition lookupIP ::
  "(string \<Rightarrow> reply) \<Rightarrow> entity \<Rightarrow> options \<Rightarrow> error + (string list \<times> lookup_result list completion)" where
  "lookupIP http entityObj opts =
     (case getIpUri (entityValue entityObj) opts of
        Inl e \<Rightarrow> Inl e
      | Inr uri \<Rightarrow> Inr ([uri], recordsCallback ipResult entityObj opts (http uri)))"

text \<open>
  \<open>_lookupDomains\<close> is \<open>lookupDomains'\<close>: without its underscore the name is that of the
  option \<open>lookupDomains\<close>.
\<close>

definition lookupDomains' ::
  "(string \<Rightarrow> reply) \<Rightarrow> entity \<Rightarrow> options \<Rightarrow> error + (string list \<times> lookup_result list completion)" where
  "lookupDomains' http entityObj opts =
     (case getCritsDomainUri (entityValue entityObj) opts of
        Inl e \<Rightarrow> Inl e
      | Inr uri \<Rightarrow> Inr ([uri], recordsCallback domainResult entityObj opts (http uri)))"

subsection \<open>Hash lookup\<close>

definition processHashResults :: "reply \<Rightarrow> crits_object list completion" where
  "processHashResults r =
     (case getErrorMessage (replyErr r) (replyResponse r) (replyBody r) of
        Inl e \<Rightarrow> Threw e
      | Inr (Some msg) \<Rightarrow> Failed msg
      | Inr None \<Rightarrow>
          (case replyBody r of
             None \<Rightarrow> Threw TypeError
           | Some b \<Rightarrow> Succeeded (objects b)))"

definition sampleDetail :: "options \<Rightarrow> crits_object \<Rightarrow> error + detail" where
  "sampleDetail opts critsObject =
     (case getCritsSampleUrl opts critsObject of
        Inl e \<Rightarrow> Inl e
      | Inr critsLookupUrl \<Rightarrow>
          (case getPatchDescriptionUri ''indicator'' (objectId critsObject) opts of
             Inl e \<Rightarrow> Inl e
           | Inr patchUri \<Rightarrow>
               Inr [(''filename'', FValue (filename critsObject)),
                    (''filenames'', FValue (filenames critsObject)),
                    (''critsLookupUrl'', FString critsLookupUrl),
                    (''bucketList'', FLabels (bucket_list critsObject)),
                    (''campaign'', FNamed (campaign critsObject)),
                    (''description'', FValue (description critsObject)),
                    (''modified'', FValue (modified critsObject)),
                    (''source'', FNamed (source critsObject)),
                    (''patchDescriptionUri'', FString patchUri)]))"

definition indicatorDetail :: "options \<Rightarrow> crits_object \<Rightarrow> error + detail" where
  "indicatorDetail opts critsObject =
     (case getCritsHashUrl opts critsObject of
        Inl e \<Rightarrow> Inl e
      | Inr critsLookupUrl \<Rightarrow>
          (case getPatchDescriptionUri ''indicator'' (objectId critsObject) opts of
             Inl e \<Rightarrow> Inl e
           | Inr patchUri \<Rightarrow>
               Inr [(''critsLookupUrl'', FString critsLookupUrl),
                    (''bucketList'', FLabels (bucket_list critsObject)),
                    (''campaign'', FNamed (campaign critsObject)),
                    (''description'', FValue (description critsObject)),
                    (''modified'', FValue (modified critsObject)),
                    (''source'', FNamed (source critsObject)),
                    (''threatTypes'', FValue (threat_types critsObject)),
                    (''patchDescriptionUri'', FString patchUri)]))"

text \<open>
  The final callback of \<open>async.parallel\<close> in \<open>_lookupHash\<close>, once both searches have
  given their records: the payload, with the two \<open>forEach\<close> loops that fill
  \<open>hashSamples\<close> and \<open>hashIndicators\<close>.
\<close>

definition hashPayload ::
  "entity \<Rightarrow> options \<Rightarrow> crits_object list \<Rightarrow> crits_object list \<Rightarrow> error + lookup_result" where
  "hashPayload entityObj opts resultsHashIndicators resultsHashSamples =
     (case mapE (sampleDetail opts) resultsHashSamples of
        Inl e \<Rightarrow> Inl e
      | Inr samples \<Rightarrow>
          (case mapE (indicatorDetail opts) resultsHashIndicators of
             Inl e \<Rightarrow> Inl e
           | Inr indicators \<Rightarrow>
               (let dets = \<lparr> detailsType = ''hash'', hashSamples = samples,
                             hashIndicators = indicators \<rparr>
                in if length resultsHashIndicators = 0 \<and> length resultsHashSamples = 0
                     then Inr \<lparr> entity = entityObj, displayValue = None, data = None \<rparr>
                   else Inr \<lparr> entity = entityObj, displayValue = None,
                              data = Some \<lparr> summary = createHashTags dets,
                                            details = HashDetails dets \<rparr> \<rparr>)))"

text \<open>
  \<open>async.parallel\<close> (a library, modelled by its contract) runs the two searches and
  calls the final callback once: with the error of the first search that reports a
  truthy error, at that moment, the later reply being dropped; otherwise when both have
  reported, with the two results. An empty message is falsy: the library takes that
  search for a success whose result is \<open>undefined\<close>, and the final callback then throws
  on \<open>undefined.forEach\<close>. The argument \<open>samplesFirst\<close> says which reply arrives first.
  An exception that the handler of a dropped reply might raise is not part of
  the result.
\<close>

definition afterFirst ::
  "entity \<Rightarrow> options \<Rightarrow> crits_object list option \<Rightarrow> bool \<Rightarrow>
   crits_object list completion \<Rightarrow> lookup_result list completion" where
  "afterFirst entityObj opts firstResult firstIsSamples second =
     (case second of
        Threw e \<Rightarrow> Threw e
      | Failed msg \<Rightarrow> if msg \<noteq> [] then Failed msg else Threw TypeError
      | Succeeded secondResult \<Rightarrow>
          (case firstResult of
             None \<Rightarrow> Threw TypeError
           | Some fr \<Rightarrow>
               (case (if firstIsSamples then hashPayload entityObj opts secondResult fr
                      else hashPayload entityObj opts fr secondResult) of
                  Inl e \<Rightarrow> Threw e
                | Inr payload \<Rightarrow> Succeeded [payload])))"

definition hashCallback ::
  "entity \<Rightarrow> options \<Rightarrow> bool \<Rightarrow> crits_object list completion \<Rightarrow>
   crits_object list completion \<Rightarrow> lookup_result list completion" where
  "hashCallback entityObj opts samplesFirst indicators samples =
     (case (if samplesFirst then samples else indicators) of
        Threw e \<Rightarrow> Threw e
      | Failed msg \<Rightarrow>
          if msg \<noteq> [] then Failed msg
          else afterFirst entityObj opts None samplesFirst
                 (if samplesFirst then indicators else samples)
      | Succeeded firstResult \<Rightarrow>
          afterFirst entityObj opts (Some firstResult) samplesFirst
            (if samplesFirst then indicators else samples))"

definition lookupHash ::
  "(string \<Rightarrow> reply) \<Rightarrow> bool \<Rightarrow> entity \<Rightarrow> options \<Rightarrow>
   error + (string list \<times> lookup_result list completion)" where
  "lookupHash http samplesFirst entityObj opts =
     (case getHashUri (hashType entityObj) (entityValue entityObj) opts of
        Inl e \<Rightarrow> Inl e
      | Inr indicatorsUri \<Rightarrow>
          (case getHashSampleUri (hashType entityObj) (entityValue entityObj) opts of
             Inl e \<Rightarrow> Inl e
           | Inr samplesUri \<Rightarrow>
               Inr ([indicatorsUri, samplesUri],
                    hashCallback entityObj opts samplesFirst
                      (processHashResults (http indicatorsUri))
                      (processHashResults (http samplesUri)))))"

section \<open>The dispatcher\<close>

text \<open>
  The environment of one call of \<open>doLookup\<close>: the reply of the remote repository to
  each request (\<open>net k uri\<close> answers the request for \<open>uri\<close> made by the \<open>k\<close>-th lookup
  started, counted from 0), for a hash lookup which of its two replies arrives first,
  and the order in which the started lookups end (each named once, by its number).
\<close>

record world =
  net :: "nat \<Rightarrow> string \<Rightarrow> reply"
  samplesFirst :: "nat \<Rightarrow> bool"
  completionOrder :: "nat list"

text \<open>
  What the host's callback \<open>cb\<close> was called with: the error (\<open>None\<close> for \<open>null\<close>) and
  the second argument (\<open>None\<close> when \<open>cb\<close> was given one argument only, so that the
  parameter is \<open>undefined\<close>). The second argument is the array \<open>lookupResults\<close>
  itself; \<open>Called\<close> records its elements at the moment of the call.
\<close>

datatype called = Called "string option" "lookup_result list option"

text \<open>
  The state of a call: the URIs requested so far, the started lookups with the way each
  will end, the array \<open>lookupResults\<close>, the count of iteratee callbacks without error
  kept by \<open>async.each\<close>, the call of \<open>cb\<close> if it has happened, and the exception, if
  one was raised and not caught. The model stops at an uncaught exception.
\<close>

record state =
  requests :: "string list"
  pending :: "lookup_result list completion list"
  lookupResults :: "lookup_result list"
  completed :: nat
  callback :: "called option"
  uncaught :: "error option"

definition initial :: state where
  "initial = \<lparr> requests = [], pending = [], lookupResults = [], completed = 0,
               callback = None, uncaught = None \<rparr>"

datatype lookup_kind = IPLookup | HashLookup | DomainLookup

text \<open>The \<open>if\<close> chain of the iteratee: \<open>None\<close> is its last branch, the entity is skipped.\<close>

definition dispatch :: "options \<Rightarrow> entity \<Rightarrow> lookup_kind option" where
  "dispatch opts entityObj =
     (if isIP entityObj \<and> lookupIps opts then Some IPLookup
      else if (isMD5 entityObj \<or> isSHA1 entityObj \<or> isSHA256 entityObj) \<and> lookupHashes opts
        then Some HashLookup
      else if isDomain entityObj \<and> lookupDomains opts then Some DomainLookup
      else None)"

definition lookup ::
  "world \<Rightarrow> nat \<Rightarrow> lookup_kind \<Rightarrow> entity \<Rightarrow> options \<Rightarrow>
   error + (string list \<times> lookup_result list completion)" where
  "lookup w k kind entityObj opts =
     (case kind of
        IPLookup \<Rightarrow> lookupIP (net w k) entityObj opts
      | HashLookup \<Rightarrow> lookupHash (net w k) (samplesFirst w k) entityObj opts
      | DomainLookup \<Rightarrow> lookupDomains' (net w k) entityObj opts)"

text \<open>
  \<open>async.each\<close> (a library, modelled by its contract): \<open>len\<close> is the number of
  entities. The callback \<open>next\<close> handed to the iteratee calls the final callback, once
  only, with the first truthy error it is given, or with \<open>null\<close> when the last of the
  \<open>len\<close> iteratees reports without error. The final callback of \<open>doLookup\<close> is
  \<open>cb(err, lookupResults)\<close>.
\<close>

definition iterateeDone :: "nat \<Rightarrow> string option \<Rightarrow> state \<Rightarrow> state" where
  "iterateeDone len err st =
     (case err of
        Some e \<Rightarrow>
          if callback st = None
            then st\<lparr>callback := Some (Called (Some e) (Some (lookupResults st)))\<rparr>
          else st
      | None \<Rightarrow>
          (let st' = st\<lparr>completed := completed st + 1\<rparr>
           in if completed st' = len \<and> callback st' = None
                then st'\<lparr>callback := Some (Called None (Some (lookupResults st')))\<rparr>
              else st'))"

text \<open>
  One run of the iteratee, synchronously: a skipped entity calls \<open>next(null)\<close> at once,
  any other starts its lookup, which issues its requests and ends later. The calls of
  the logger are left out: \<open>Logger\<close> is the host's logging handle, set by \<open>startup\<close>
  before any lookup.
\<close>

definition iteratee :: "world \<Rightarrow> options \<Rightarrow> nat \<Rightarrow> state \<Rightarrow> entity \<Rightarrow> state" where
  "iteratee w opts len st entityObj =
     (if uncaught st \<noteq> None then st
      else (case dispatch opts entityObj of
              None \<Rightarrow> iterateeDone len None st
            | Some kind \<Rightarrow>
                (case lookup w (length (pending st)) kind entityObj opts of
                   Inl e \<Rightarrow> st\<lparr>uncaught := Some e\<rparr>
                 | Inr (uris, c) \<Rightarrow>
                     st\<lparr>requests := requests st @ uris, pending := pending st @ [c]\<rparr>)))"

text \<open>
  The callback the iteratee gives to a lookup: \<open>if (err) next(err)\<close>, else the loop
  that pushes \<open>results[i]\<close> onto \<open>lookupResults\<close> and \<open>next(null)\<close>. After \<open>cb(error)\<close>
  with an empty (falsy) message, \<open>results\<close> is \<open>undefined\<close> and \<open>results.length\<close>
  throws.
\<close>

definition onLookupDone :: "nat \<Rightarrow> lookup_result list completion \<Rightarrow> state \<Rightarrow> state" where
  "onLookupDone len c st =
     (case c of
        Threw e \<Rightarrow> st\<lparr>uncaught := Some e\<rparr>
      | Failed msg \<Rightarrow>
          if msg \<noteq> [] then iterateeDone len (Some msg) st
          else st\<lparr>uncaught := Some TypeError\<rparr>
      | Succeeded results \<Rightarrow>
          iterateeDone len None
            (st\<lparr>lookupResults := foldl (\<lambda>acc r. acc @ [r]) (lookupResults st) results\<rparr>))"

fun runCompletions :: "nat \<Rightarrow> nat list \<Rightarrow> state \<Rightarrow> state" where
  "runCompletions len [] st = st"
| "runCompletions len (k # ks) st =
     (if uncaught st \<noteq> None then st
      else if k < length (pending st)
        then runCompletions len ks (onLookupDone len (pending st ! k) st)
      else runCompletions len ks st)"

text \<open>
  The state after the synchronous part of \<open>async.each\<close>: every iteratee has run (an
  empty collection calls the final callback at once).
\<close>

definition startAll :: "world \<Rightarrow> entity list \<Rightarrow> options \<Rightarrow> state" where
  "startAll w entities opts =
     (if length entities = 0
        then initial\<lparr>callback := Some (Called None (Some []))\<rparr>
      else foldl (iteratee w opts (length entities)) initial entities)"

definition doLookup :: "world \<Rightarrow> entity list \<Rightarrow> options \<Rightarrow> state" where
  "doLookup w entities opts =
     (case validateOptions opts of
        Some validationResult \<Rightarrow> initial\<lparr>callback := Some (Called (Some validationResult) None)\<rparr>
      | None \<Rightarrow>
          runCompletions (length entities) (completionOrder w) (startAll w entities opts))"

section \<open>The specification's reading of option validation\<close>

text \<open>
  The specification states validation as three rules, checked in the order hostname,
  API key, username: a field violates its rule when it is not a string (absent
  included) or is the empty string. The result is the message of the first violated
  rule, \<open>None\<close> when there is none.
\<close>

definition fieldViolation :: "string \<Rightarrow> string \<Rightarrow> jsval \<Rightarrow> string option" where
  "fieldViolation missingMsg emptyMsg v =
     (case v of JStr s \<Rightarrow> if s = [] then Some emptyMsg else None | _ \<Rightarrow> Some missingMsg)"

definition firstViolatedRule :: "options \<Rightarrow> string option" where
  "firstViolatedRule opts =
     (case List.map_filter id
        [fieldViolation ''No hostname set'' ''Hostname must be at least 1 character'' (hostname opts),
         fieldViolation ''No API key set'' ''API key must be at least 1 character'' (apiKey opts),
         fieldViolation ''No username set'' ''Username must be at least 1 character'' (username opts)] of
        [] \<Rightarrow> None
      | msg # _ \<Rightarrow> Some msg)"

section \<open>The specification's reading of error classification and of a record's arrays\<close>

text \<open>
  The transport error carries a machine code when it is an object whose property
  \<open>code\<close> is a string; it is a non-null object when it is an object or an array.
\<close>

definition errorCode :: "jsval \<Rightarrow> string option" where
  "errorCode err =
     (case err of
        JObj kvs \<Rightarrow> (case map_of kvs ''code'' of Some (JStr c) \<Rightarrow> Some c | _ \<Rightarrow> None)
      | _ \<Rightarrow> None)"

definition nonNullObject :: "jsval \<Rightarrow> bool" where
  "nonNullObject v = (case v of JObj kvs \<Rightarrow> True | JArr xs \<Rightarrow> True | _ \<Rightarrow> False)"

text \<open>The entries of a property that may not be an array: none when it is not.\<close>

definition elements :: "'a list option \<Rightarrow> 'a list" where
  "elements a = (case a of None \<Rightarrow> [] | Some xs \<Rightarrow> xs)"

section \<open>The specification's reading of a successful reply\<close>

text \<open>
  A request succeeds with the records \<open>objs\<close> when its reply is classified as no error
  and its body holds \<open>objs\<close>.
\<close>

definition succeedsWith :: "reply \<Rightarrow> crits_object list \<Rightarrow> bool" where
  "succeedsWith r objs =
     (getErrorMessage (replyErr r) (replyResponse r) (replyBody r) = Inr None \<and>
      map_option objects (replyBody r) = Some objs)"

section \<open>The specification's reading of the merged summary\<close>

text \<open>
  First-seen order with exact duplicates removed: of equal elements the first stays.
\<close>

definition firstSeen :: "'a list \<Rightarrow> 'a list" where
  "firstSeen xs = rev (remdups (rev xs))"

text \<open>
  The tags that the entries of a property contribute when the property is an array of
  named entries (of labels), none otherwise; \<open>nameTags\<close> is the same for a property
  of a remote record.
\<close>

definition readNames :: "string \<Rightarrow> string \<Rightarrow> detail \<Rightarrow> string list" where
  "readNames marker k d =
     (case readProp d k of
        Some (FNamed (Some xs)) \<Rightarrow> map (\<lambda>x. toString (name x) @ marker) xs
      | _ \<Rightarrow> [])"

definition readLabels :: "string \<Rightarrow> detail \<Rightarrow> string list" where
  "readLabels k d = (case readProp d k of Some (FLabels (Some bl)) \<Rightarrow> bl | _ \<Rightarrow> [])"

definition nameTags :: "string \<Rightarrow> named list option \<Rightarrow> string list" where
  "nameTags marker a = map (\<lambda>x. toString (name x) @ marker) (elements a)"

text \<open>
  A detail object is that of a remote record when it carries the record's \<open>source\<close>
  and \<open>campaign\<close>, carries its labels under \<open>bucketList\<close>, and has no property
  \<open>bucket_list\<close>.
\<close>

definition detailOf :: "crits_object \<Rightarrow> detail \<Rightarrow> bool" where
  "detailOf obj d =
     (readProp d ''source'' = Some (FNamed (source obj)) \<and>
      readProp d ''campaign'' = Some (FNamed (campaign obj)) \<and>
      readProp d ''bucketList'' = Some (FLabels (bucket_list obj)) \<and>
      readProp d ''bucket_list'' = None)"

section \<open>Auxiliary notions for the dispatcher\<close>

text \<open>
  The lookups that a batch starts, in order, each with the URIs it requests and the way
  it ends; the \<open>k\<close>-th started lookup talks to \<open>net w k\<close>.
\<close>

fun started ::
  "world \<Rightarrow> options \<Rightarrow> nat \<Rightarrow> entity list \<Rightarrow> (string list \<times> lookup_result list completion) list" where
  "started w opts k [] = []"
| "started w opts k (e # es) =
     (case dispatch opts e of
        None \<Rightarrow> started w opts k es
      | Some kind \<Rightarrow>
          (case lookup w k kind e opts of
             Inl x \<Rightarrow> []
           | Inr uc \<Rightarrow> uc # started w opts (Suc k) es))"

text \<open>
  The results a finished lookup pushes onto \<open>lookupResults\<close>; and the property that
  \<open>cb\<close>, if it was called, was given a second argument.
\<close>

definition resultsOf :: "lookup_result list completion \<Rightarrow> lookup_result list" where
  "resultsOf c = (case c of Succeeded rs \<Rightarrow> rs | _ \<Rightarrow> [])"

definition resultsSupplied :: "state \<Rightarrow> bool" where
  "resultsSupplied st = (\<forall>err. callback st \<noteq> Some (Called err None))"

section \<open>Example inputs\<close>

definition exampleOptions :: options where
  "exampleOptions =
     \<lparr> hostname = JStr ''https://crits.example.com/'', username = JStr ''analyst'',
       apiKey = JStr ''k3y'', lookupIps = True, lookupHashes = True, lookupDomains = True \<rparr>"

definition ipEntity :: "string \<Rightarrow> entity" where
  "ipEntity v =
     \<lparr> isIP = True, isMD5 = False, isSHA1 = False, isSHA256 = False, isDomain = False,
       isURL = False, hashType = [], entityValue = v \<rparr>"

definition okReply :: "crits_object list \<Rightarrow> reply" where
  "okReply objs =
     \<lparr> replyErr = JNull, replyResponse = Some \<lparr> statusCode = 200 \<rparr>,
       replyBody = Some \<lparr> objects = objs \<rparr> \<rparr>"

definition refusedReply :: reply where
  "refusedReply =
     \<lparr> replyErr = JObj [(''code'', JStr ''ECONNREFUSED'')], replyResponse = None,
       replyBody = None \<rparr>"

definition exampleWorld :: world where
  "exampleWorld =
     \<lparr> net = (\<lambda>k uri. if k = 0 then okReply [] else refusedReply),
       samplesFirst = (\<lambda>k. False), completionOrder = [0, 1] \<rparr>"

definition taggedRecord :: crits_object where
  "taggedRecord =
     \<lparr> objectId = JStr ''5a1'', ip = JStr ''10.0.0.1'', domain = JUndefined, md5 = JUndefined,
       filename = JUndefined, filenames = JUndefined,
       source = Some [\<lparr> name = JStr ''osint'' \<rparr>, \<lparr> name = JStr ''osint'' \<rparr>],
       campaign = Some [\<lparr> name = JStr ''apt1'' \<rparr>],
       bucket_list = Some [''a'', ''a'', ''b'', ''c'', ''d'', ''e'', ''f''],
       description = JNull, modified = JNull, threat_types = JUndefined \<rparr>"

definition domainEntity :: "string \<Rightarrow> entity" where
  "domainEntity v =
     \<lparr> isIP = False, isMD5 = False, isSHA1 = False, isSHA256 = False, isDomain = True,
       isURL = False, hashType = [], entityValue = v \<rparr>"

definition md5Entity :: "string \<Rightarrow> entity" where
  "md5Entity v =
     \<lparr> isIP = False, isMD5 = True, isSHA1 = False, isSHA256 = False, isDomain = False,
       isURL = False, hashType = ''MD5'', entityValue = v \<rparr>"

definition urlEntity :: "string \<Rightarrow> entity" where
  "urlEntity v =
     \<lparr> isIP = False, isMD5 = False, isSHA1 = False, isSHA256 = False, isDomain = False,
       isURL = True, hashType = [], entityValue = v \<rparr>"

definition domainRecord :: crits_object where
  "domainRecord =
     \<lparr> objectId = JStr ''7c2'', ip = JUndefined, domain = JStr ''evil.example'', md5 = JUndefined,
       filename = JUndefined, filenames = JUndefined, source = None, campaign = None,
       bucket_list = None, description = JNull, modified = JNull, threat_types = JUndefined \<rparr>"

definition sampleRecord :: crits_object where
  "sampleRecord =
     \<lparr> objectId = JStr ''9f3'', ip = JUndefined, domain = JUndefined,
       md5 = JStr ''d41d8cd98f00b204e9800998ecf8427e'',
       filename = JStr ''dropper.exe'', filenames = JUndefined,
       source = Some [\<lparr> name = JStr ''osint'' \<rparr>], campaign = None,
       bucket_list = Some [''apt''], description = JNull, modified = JNull,
       threat_types = JUndefined \<rparr>"

definition hashIndicatorsUri :: string where
  "hashIndicatorsUri =
     ''https://crits.example.com/api/v1/indicators/?c-type=MD5&c-lower=d41d8cd98f00b204e9800998ecf8427e&username=analyst&api_key=k3y''"

definition hashSamplesUri :: string where
  "hashSamplesUri =
     ''https://crits.example.com/api/v1/samples/?only=filename,campaign,description,modified,source&c-md5=d41d8cd98f00b204e9800998ecf8427e&username=analyst&api_key=k3y''"

text \<open>A repository that knows one sample and no indicator.\<close>

definition oneSampleHttp :: "string \<Rightarrow> reply" where
  "oneSampleHttp uri = (if uri = hashSamplesUri then okReply [sampleRecord] else okReply [])"

section \<open>Properties of option validation\<close>

lemma typeof_string_iff: "typeof v = ''string'' \<longleftrightarrow> (\<exists>s. v = JStr s)"
  by (cases v) simp_all

lemma strLength_JStr [simp]: "strLength (JStr s) = length s"
  by (simp add: strLength_def)

lemma validateOptions_None_iff:
  "validateOptions opts = None \<longleftrightarrow>
     (\<exists>h u k. hostname opts = JStr h \<and> h \<noteq> [] \<and> username opts = JStr u \<and> u \<noteq> [] \<and>
              apiKey opts = JStr k \<and> k \<noteq> [])"
  by (auto simp: validateOptions_def typeof_string_iff)

lemma fieldViolation_typeof:
  "fieldViolation missingMsg emptyMsg v =
     (if typeof v \<noteq> ''string'' then Some missingMsg
      else if strLength v = 0 then Some emptyMsg else None)"
  by (cases v) (simp_all add: fieldViolation_def)

lemma validateOptions_firstViolatedRule: "validateOptions opts = firstViolatedRule opts"
  by (simp add: validateOptions_def firstViolatedRule_def fieldViolation_typeof
      List.map_filter_simps)

lemma doLookup_invalid:
  "validateOptions opts = Some msg \<Longrightarrow>
     doLookup w entities opts = initial\<lparr>callback := Some (Called (Some msg) None)\<rparr>"
  by (simp add: doLookup_def)

text \<open>
  Claim C2. \<open>_validateOptions\<close> returns \<open>null\<close> exactly when hostname, username and API
  key are each a non-empty string; in every case its result is the message of the first
  violated rule in the order hostname, API key, username; and when it returns a message,
  \<open>doLookup\<close> requests no URI, starts no lookup, and calls back with that message.
\<close>

theorem validateOptions_spec:
  "(validateOptions opts = None \<longleftrightarrow>
      (\<exists>h u k. hostname opts = JStr h \<and> h \<noteq> [] \<and> username opts = JStr u \<and> u \<noteq> [] \<and>
               apiKey opts = JStr k \<and> k \<noteq> []))
   \<and> validateOptions opts = firstViolatedRule opts
   \<and> (validateOptions opts = Some msg \<longrightarrow>
        requests (doLookup w entities opts) = [] \<and>
        pending (doLookup w entities opts) = [] \<and>
        callback (doLookup w entities opts) = Some (Called (Some msg) None))"
  using validateOptions_None_iff [of opts] validateOptions_firstViolatedRule [of opts]
  by (simp add: doLookup_invalid initial_def)

theorem validateOptions_spec_witness:
  "validateOptions (exampleOptions\<lparr>apiKey := JStr []\<rparr>) = Some ''API key must be at least 1 character''
   \<and> firstViolatedRule (exampleOptions\<lparr>apiKey := JStr []\<rparr>) = Some ''API key must be at least 1 character''
   \<and> requests (doLookup exampleWorld [ipEntity ''10.0.0.1''] (exampleOptions\<lparr>apiKey := JStr []\<rparr>)) = []
   \<and> pending (doLookup exampleWorld [ipEntity ''10.0.0.1''] (exampleOptions\<lparr>apiKey := JStr []\<rparr>)) = []
   \<and> callback (doLookup exampleWorld [ipEntity ''10.0.0.1''] (exampleOptions\<lparr>apiKey := JStr []\<rparr>))
       = Some (Called (Some ''API key must be at least 1 character'') None)"
proof -
  have v: "validateOptions (exampleOptions\<lparr>apiKey := JStr []\<rparr>)
             = Some ''API key must be at least 1 character''"
    by (simp add: validateOptions_def exampleOptions_def)
  show ?thesis
    using v validateOptions_spec [of "exampleOptions\<lparr>apiKey := JStr []\<rparr>"
        "''API key must be at least 1 character''" exampleWorld "[ipEntity ''10.0.0.1'']"]
    by simp
qed

section \<open>Properties of error classification\<close>

lemma code_string_iff:
  "truthy err \<and> typeof (getProp err ''code'') = ''string'' \<longleftrightarrow> errorCode err \<noteq> None"
  by (cases err) (auto simp: errorCode_def typeof_string_iff split: option.splits jsval.splits)

lemma errorCode_Some: "errorCode err = Some c \<Longrightarrow> toString (getProp err ''code'') = c"
  by (cases err) (auto simp: errorCode_def split: option.splits jsval.splits)

lemma object_iff: "truthy err \<and> typeof err = ''object'' \<longleftrightarrow> nonNullObject err"
  by (cases err) (simp_all add: nonNullObject_def)

text \<open>
  Claim C5. \<open>_getErrorMessage\<close> classifies in this order: a transport error with a
  string machine code gives that code; else a transport error that is a non-null object
  gives its JSON serialization; else status 401 gives the authorization message; else a
  status other than 200 gives the generic message; else the result is \<open>null\<close>, whatever
  the body holds.
\<close>

theorem getErrorMessage_classification:
  "(errorCode err = Some c \<longrightarrow> getErrorMessage err resp bdy = Inr (Some c))
   \<and> (errorCode err = None \<and> nonNullObject err \<longrightarrow>
         getErrorMessage err resp bdy = Inr (Some (JSON_stringify err)))
   \<and> (errorCode err = None \<and> \<not> nonNullObject err \<and> resp = Some r \<and> statusCode r = 401 \<longrightarrow>
         getErrorMessage err resp bdy =
           Inr (Some ''Unauthorized to access CRITs. Please check username and API key''))
   \<and> (errorCode err = None \<and> \<not> nonNullObject err \<and> resp = Some r \<and> statusCode r \<noteq> 401 \<and>
        statusCode r \<noteq> 200 \<longrightarrow>
         getErrorMessage err resp bdy = Inr (Some ''There was an unknown error accessing CRITs''))
   \<and> (errorCode err = None \<and> \<not> nonNullObject err \<and> resp = Some r \<and> statusCode r = 200 \<longrightarrow>
         getErrorMessage err resp bdy = Inr None)"
  using code_string_iff [of err] object_iff [of err]
  by (auto simp: getErrorMessage_def errorCode_Some)

theorem getErrorMessage_classification_witness:
  "getErrorMessage (JObj [(''errno'', JNum (-111)), (''code'', JStr ''ECONNREFUSED'')]) None None
     = Inr (Some ''ECONNREFUSED'')
   \<and> getErrorMessage (JObj [(''code'', JNum 7)]) None None
       = Inr (Some (JSON_stringify (JObj [(''code'', JNum 7)])))
   \<and> getErrorMessage JNull (Some \<lparr> statusCode = 401 \<rparr>) None
       = Inr (Some ''Unauthorized to access CRITs. Please check username and API key'')
   \<and> getErrorMessage JNull (Some \<lparr> statusCode = 500 \<rparr>) None
       = Inr (Some ''There was an unknown error accessing CRITs'')
   \<and> getErrorMessage JNull (Some \<lparr> statusCode = 200 \<rparr>) (Some \<lparr> objects = [taggedRecord, taggedRecord] \<rparr>)
       = Inr None"
  using
    getErrorMessage_classification
      [of "JObj [(''errno'', JNum (-111)), (''code'', JStr ''ECONNREFUSED'')]" "''ECONNREFUSED''"
          None None "\<lparr> statusCode = 0 \<rparr>"]
    getErrorMessage_classification
      [of "JObj [(''code'', JNum 7)]" "[]" None None "\<lparr> statusCode = 0 \<rparr>"]
    getErrorMessage_classification
      [of JNull "[]" "Some \<lparr> statusCode = 401 \<rparr>" None "\<lparr> statusCode = 401 \<rparr>"]
    getErrorMessage_classification
      [of JNull "[]" "Some \<lparr> statusCode = 500 \<rparr>" None "\<lparr> statusCode = 500 \<rparr>"]
    getErrorMessage_classification
      [of JNull "[]" "Some \<lparr> statusCode = 200 \<rparr>"
          "Some \<lparr> objects = [taggedRecord, taggedRecord] \<rparr>" "\<lparr> statusCode = 200 \<rparr>"]
  by (simp add: errorCode_def nonNullObject_def)

section \<open>Properties of the tags of one record\<close>

lemma pushNames_eq:
  "pushNames xs marker i tags = tags @ map (\<lambda>x. toString (name x) @ marker) (drop i xs)"
proof (induction xs marker i tags rule: pushNames.induct)
  case (1 xs marker i tags)
  show ?case
  proof (cases "i < length xs")
    case True
    then show ?thesis
      using "1.IH" [OF True]
      by (simp add: pushNames.simps [of xs marker i] Cons_nth_drop_Suc [symmetric])
  next
    case False
    then show ?thesis by (simp add: pushNames.simps [of xs marker i])
  qed
qed

lemma pushLabels_eq: "pushLabels bl i tags = tags @ take (5 - i) (drop i bl)"
proof (induction bl i tags rule: pushLabels.induct)
  case (1 bl i tags)
  show ?case
  proof (cases "i < length bl \<and> i < 5")
    case True
    then have "take (5 - i) (drop i bl) = bl ! i # take (5 - Suc i) (drop (Suc i) bl)"
      by (metis Cons_nth_drop_Suc Suc_diff_Suc take_Suc_Cons)
    then show ?thesis
      using "1.IH" [OF True] True by (simp add: pushLabels.simps [of bl i])
  next
    case False
    then show ?thesis by (auto simp add: pushLabels.simps [of bl i])
  qed
qed

text \<open>
  Claim C7. The tags of one record are one tag per source entry, then one per campaign
  entry, then the first five bucket labels at most, in the order of the record and with
  nothing removed: the lists are mapped and truncated, never deduplicated.
\<close>

theorem createTags_eq:
  "createTags obj =
     map (\<lambda>x. toString (name x) @ createSourceMarker) (elements (source obj)) @
     map (\<lambda>x. toString (name x) @ createCampaignMarkger) (elements (campaign obj)) @
     take 5 (elements (bucket_list obj))"
  by (simp add: createTags_def pushNames_eq pushLabels_eq elements_def Let_def split: option.splits)

theorem createTags_eq_witness:
  "createTags taggedRecord =
     [''osint'' @ createSourceMarker, ''osint'' @ createSourceMarker,
      ''apt1'' @ createCampaignMarkger, ''a'', ''a'', ''b'', ''c'', ''d'']"
  using createTags_eq [of taggedRecord] by (simp add: taggedRecord_def elements_def)

section \<open>Properties of the lookups\<close>

lemma mapE_related:
  assumes "\<And>x. \<exists>y. f x = Inr y \<and> P x y"
  shows "\<exists>ys. mapE f xs = Inr ys \<and> list_all2 P xs ys"
proof (induction xs)
  case Nil
  show ?case by simp
next
  case (Cons x xs)
  from assms obtain y where y: "f x = Inr y" "P x y" by blast
  from Cons obtain ys where ys: "mapE f xs = Inr ys" "list_all2 P xs ys" by blast
  show ?case using y ys by simp
qed

lemma mapE_pointwise:
  assumes "\<And>x. \<exists>y. f x = Inr y \<and> P x y"
  shows "\<exists>ys. mapE f xs = Inr ys \<and> length ys = length xs \<and>
           (\<forall>i < length xs. P (xs ! i) (ys ! i))"
  using mapE_related [of f P xs, OF assms] by (auto simp: list_all2_conv_all_nth)

lemma host_of_getIpUri: "getIpUri v opts = Inr uri \<Longrightarrow> \<exists>h. getFormattedHostname opts = Inr h"
  by (auto simp: getIpUri_def split: sum.splits)

lemma host_of_getCritsDomainUri:
  "getCritsDomainUri v opts = Inr uri \<Longrightarrow> \<exists>h. getFormattedHostname opts = Inr h"
  by (auto simp: getCritsDomainUri_def split: sum.splits)

lemma host_of_getHashUri:
  "getHashUri t v opts = Inr uri \<Longrightarrow> \<exists>h. getFormattedHostname opts = Inr h"
  by (auto simp: getHashUri_def split: sum.splits)

lemma ipResult_Inr:
  "getFormattedHostname opts = Inr h \<Longrightarrow>
   \<exists>r. ipResult e opts obj = Inr r \<and> entity r = e \<and> displayValue r = Some (ip obj) \<and>
       data r \<noteq> None"
  by (simp add: ipResult_def getCritsIpUrl_def getPatchDescriptionUri_def)

lemma domainResult_Inr:
  "getFormattedHostname opts = Inr h \<Longrightarrow>
   \<exists>r. domainResult e opts obj = Inr r \<and> entity r = e \<and> displayValue r = Some (domain obj) \<and>
       data r \<noteq> None"
  by (simp add: domainResult_def getCritsDomainUrl_def getPatchDescriptionUri_def)

lemma recordsCallback_succeeds:
  assumes ok: "succeedsWith r objs"
    and shape: "\<And>obj. \<exists>res. shape e opts obj = Inr res \<and> P obj res"
  shows "\<exists>rs. recordsCallback shape e opts r = Succeeded rs \<and>
           (objs = [] \<longrightarrow> rs = [\<lparr> entity = e, displayValue = None, data = None \<rparr>]) \<and>
           (objs \<noteq> [] \<longrightarrow> length rs = length objs \<and> (\<forall>i < length objs. P (objs ! i) (rs ! i)))"
proof -
  from ok obtain b where b: "replyBody r = Some b" "objects b = objs"
    and noerr: "getErrorMessage (replyErr r) (replyResponse r) (replyBody r) = Inr None"
    by (auto simp: succeedsWith_def)
  show ?thesis
  proof (cases "objs = []")
    case True
    then show ?thesis using b noerr by (simp add: recordsCallback_def)
  next
    case False
    from mapE_pointwise [of "shape e opts" P objs] shape
    obtain rs where rs: "mapE (shape e opts) objs = Inr rs" "length rs = length objs"
      "\<forall>i < length objs. P (objs ! i) (rs ! i)" by blast
    then show ?thesis using False b noerr by (simp add: recordsCallback_def)
  qed
qed

lemma succeedsWith_okReply: "succeedsWith (okReply objs) objs"
  by (simp add: succeedsWith_def okReply_def getErrorMessage_def)

text \<open>
  Claim C3. An IP lookup, and likewise a domain lookup, whose request succeeds with no
  record ends with exactly one result, whose \<open>data\<close> is \<open>null\<close>; with \<open>N > 0\<close> records it
  ends with exactly \<open>N\<close> results, the \<open>i\<close>-th with \<open>displayValue\<close> the \<open>ip\<close> (the
  \<open>domain\<close>) of the \<open>i\<close>-th record.
\<close>

theorem lookup_records_emitted:
  "(getIpUri (entityValue e) opts = Inr uri \<and> succeedsWith (http uri) objs \<longrightarrow>
      (\<exists>rs. lookupIP http e opts = Inr ([uri], Succeeded rs) \<and>
         (objs = [] \<longrightarrow> rs = [\<lparr> entity = e, displayValue = None, data = None \<rparr>]) \<and>
         (objs \<noteq> [] \<longrightarrow> length rs = length objs \<and>
            (\<forall>i < length objs. entity (rs ! i) = e \<and> displayValue (rs ! i) = Some (ip (objs ! i)) \<and>
                data (rs ! i) \<noteq> None))))
   \<and> (getCritsDomainUri (entityValue e) opts = Inr uri \<and> succeedsWith (http uri) objs \<longrightarrow>
      (\<exists>rs. lookupDomains' http e opts = Inr ([uri], Succeeded rs) \<and>
         (objs = [] \<longrightarrow> rs = [\<lparr> entity = e, displayValue = None, data = None \<rparr>]) \<and>
         (objs \<noteq> [] \<longrightarrow> length rs = length objs \<and>
            (\<forall>i < length objs. entity (rs ! i) = e \<and> displayValue (rs ! i) = Some (domain (objs ! i)) \<and>
                data (rs ! i) \<noteq> None))))"
proof (intro conjI impI)
  assume a: "getIpUri (entityValue e) opts = Inr uri \<and> succeedsWith (http uri) objs"
  then obtain h where h: "getFormattedHostname opts = Inr h" using host_of_getIpUri by blast
  from recordsCallback_succeeds [where shape = ipResult and e = e and opts = opts
      and P = "\<lambda>obj r. entity r = e \<and> displayValue r = Some (ip obj) \<and> data r \<noteq> None",
      OF conjunct2 [OF a] ipResult_Inr [OF h]]
  show "\<exists>rs. lookupIP http e opts = Inr ([uri], Succeeded rs) \<and>
         (objs = [] \<longrightarrow> rs = [\<lparr> entity = e, displayValue = None, data = None \<rparr>]) \<and>
         (objs \<noteq> [] \<longrightarrow> length rs = length objs \<and>
            (\<forall>i < length objs. entity (rs ! i) = e \<and> displayValue (rs ! i) = Some (ip (objs ! i)) \<and>
                data (rs ! i) \<noteq> None))"
    using a by (simp add: lookupIP_def)
next
  assume a: "getCritsDomainUri (entityValue e) opts = Inr uri \<and> succeedsWith (http uri) objs"
  then obtain h where h: "getFormattedHostname opts = Inr h"
    using host_of_getCritsDomainUri by blast
  from recordsCallback_succeeds [where shape = domainResult and e = e and opts = opts
      and P = "\<lambda>obj r. entity r = e \<and> displayValue r = Some (domain obj) \<and> data r \<noteq> None",
      OF conjunct2 [OF a] domainResult_Inr [OF h]]
  show "\<exists>rs. lookupDomains' http e opts = Inr ([uri], Succeeded rs) \<and>
         (objs = [] \<longrightarrow> rs = [\<lparr> entity = e, displayValue = None, data = None \<rparr>]) \<and>
         (objs \<noteq> [] \<longrightarrow> length rs = length objs \<and>
            (\<forall>i < length objs. entity (rs ! i) = e \<and> displayValue (rs ! i) = Some (domain (objs ! i)) \<and>
                data (rs ! i) \<noteq> None))"
    using a by (simp add: lookupDomains'_def)
qed

lemma example_getIpUri:
  "getIpUri (entityValue (ipEntity ''10.0.0.1'')) exampleOptions =
     Inr ''https://crits.example.com/api/v1/ips/?c-ip=10.0.0.1&username=analyst&api_key=k3y''"
  by (simp add: getIpUri_def getFormattedHostname_def endsWith_def substring_def
      getUriAuthQueryParam_def exampleOptions_def ipEntity_def)

lemma example_getCritsDomainUri:
  "getCritsDomainUri (entityValue (domainEntity ''evil.example'')) exampleOptions =
     Inr ''https://crits.example.com/api/v1/domains/?c-domain=evil.example&username=analyst&api_key=k3y''"
  by (simp add: getCritsDomainUri_def getFormattedHostname_def endsWith_def substring_def
      getUriAuthQueryParam_def exampleOptions_def domainEntity_def)

theorem lookup_records_emitted_witness:
  "(\<exists>rs. lookupIP (\<lambda>uri. okReply [taggedRecord, taggedRecord]) (ipEntity ''10.0.0.1'') exampleOptions
       = Inr ([''https://crits.example.com/api/v1/ips/?c-ip=10.0.0.1&username=analyst&api_key=k3y''],
              Succeeded rs) \<and>
       length rs = 2 \<and> displayValue (rs ! 0) = Some (JStr ''10.0.0.1'') \<and>
       displayValue (rs ! 1) = Some (JStr ''10.0.0.1''))
   \<and> lookupIP (\<lambda>uri. okReply []) (ipEntity ''10.0.0.1'') exampleOptions
       = Inr ([''https://crits.example.com/api/v1/ips/?c-ip=10.0.0.1&username=analyst&api_key=k3y''],
              Succeeded [\<lparr> entity = ipEntity ''10.0.0.1'', displayValue = None, data = None \<rparr>])
   \<and> (\<exists>rs. lookupDomains' (\<lambda>uri. okReply [domainRecord]) (domainEntity ''evil.example'') exampleOptions
       = Inr ([''https://crits.example.com/api/v1/domains/?c-domain=evil.example&username=analyst&api_key=k3y''],
              Succeeded rs) \<and>
       length rs = 1 \<and> displayValue (rs ! 0) = Some (JStr ''evil.example''))"
proof (intro conjI)
  from lookup_records_emitted [of "ipEntity ''10.0.0.1''" exampleOptions
      "''https://crits.example.com/api/v1/ips/?c-ip=10.0.0.1&username=analyst&api_key=k3y''"
      "\<lambda>uri. okReply [taggedRecord, taggedRecord]" "[taggedRecord, taggedRecord]"]
    example_getIpUri succeedsWith_okReply [of "[taggedRecord, taggedRecord]"]
  obtain rs where rs:
    "lookupIP (\<lambda>uri. okReply [taggedRecord, taggedRecord]) (ipEntity ''10.0.0.1'') exampleOptions
       = Inr ([''https://crits.example.com/api/v1/ips/?c-ip=10.0.0.1&username=analyst&api_key=k3y''],
              Succeeded rs)"
    "length rs = 2"
    "\<forall>i < 2. displayValue (rs ! i) = Some (ip ([taggedRecord, taggedRecord] ! i))"
    by auto
  from rs(3) have "displayValue (rs ! 0) = Some (JStr ''10.0.0.1'')"
    "displayValue (rs ! 1) = Some (JStr ''10.0.0.1'')"
    by (simp_all add: taggedRecord_def)
  with rs(1,2) show "\<exists>rs. lookupIP (\<lambda>uri. okReply [taggedRecord, taggedRecord])
       (ipEntity ''10.0.0.1'') exampleOptions
       = Inr ([''https://crits.example.com/api/v1/ips/?c-ip=10.0.0.1&username=analyst&api_key=k3y''],
              Succeeded rs) \<and>
       length rs = 2 \<and> displayValue (rs ! 0) = Some (JStr ''10.0.0.1'') \<and>
       displayValue (rs ! 1) = Some (JStr ''10.0.0.1'')"
    by blast
next
  from lookup_records_emitted [of "ipEntity ''10.0.0.1''" exampleOptions
      "''https://crits.example.com/api/v1/ips/?c-ip=10.0.0.1&username=analyst&api_key=k3y''"
      "\<lambda>uri. okReply []" "[]"]
    example_getIpUri succeedsWith_okReply [of "[]"]
  show "lookupIP (\<lambda>uri. okReply []) (ipEntity ''10.0.0.1'') exampleOptions
       = Inr ([''https://crits.example.com/api/v1/ips/?c-ip=10.0.0.1&username=analyst&api_key=k3y''],
              Succeeded [\<lparr> entity = ipEntity ''10.0.0.1'', displayValue = None, data = None \<rparr>])"
    by auto
next
  from lookup_records_emitted [of "domainEntity ''evil.example''" exampleOptions
      "''https://crits.example.com/api/v1/domains/?c-domain=evil.example&username=analyst&api_key=k3y''"
      "\<lambda>uri. okReply [domainRecord]" "[domainRecord]"]
    example_getCritsDomainUri succeedsWith_okReply [of "[domainRecord]"]
  obtain rs where rs:
    "lookupDomains' (\<lambda>uri. okReply [domainRecord]) (domainEntity ''evil.example'') exampleOptions
       = Inr ([''https://crits.example.com/api/v1/domains/?c-domain=evil.example&username=analyst&api_key=k3y''],
              Succeeded rs)"
    "length rs = 1"
    "\<forall>i < 1. displayValue (rs ! i) = Some (domain ([domainRecord] ! i))"
    by auto
  from rs(3) have "displayValue (rs ! 0) = Some (JStr ''evil.example'')"
    by (simp add: domainRecord_def)
  with rs(1,2) show "\<exists>rs. lookupDomains' (\<lambda>uri. okReply [domainRecord])
       (domainEntity ''evil.example'') exampleOptions
       = Inr ([''https://crits.example.com/api/v1/domains/?c-domain=evil.example&username=analyst&api_key=k3y''],
              Succeeded rs) \<and>
       length rs = 1 \<and> displayValue (rs ! 0) = Some (JStr ''evil.example'')"
    by blast
qed

subsection \<open>Hash lookup\<close>

lemma sampleDetail_Inr:
  "getFormattedHostname opts = Inr h \<Longrightarrow> \<exists>d. sampleDetail opts obj = Inr d \<and> True"
  by (simp add: sampleDetail_def getCritsSampleUrl_def getPatchDescriptionUri_def)

lemma indicatorDetail_Inr:
  "getFormattedHostname opts = Inr h \<Longrightarrow> \<exists>d. indicatorDetail opts obj = Inr d \<and> True"
  by (simp add: indicatorDetail_def getCritsHashUrl_def getPatchDescriptionUri_def)

lemma hashPayload_Inr:
  assumes h: "getFormattedHostname opts = Inr h"
  shows "\<exists>r. hashPayload e opts inds samps = Inr r \<and> entity r = e \<and> displayValue r = None \<and>
           (data r = None \<longleftrightarrow> inds = [] \<and> samps = []) \<and>
           (\<forall>d. data r = Some d \<longrightarrow>
              (\<exists>hd. details d = HashDetails hd \<and> length (hashSamples hd) = length samps \<and>
                 length (hashIndicators hd) = length inds \<and> summary d = createHashTags hd))"
proof -
  from mapE_pointwise [of "sampleDetail opts" "\<lambda>x y. True" samps] sampleDetail_Inr [OF h]
  obtain ss where ss: "mapE (sampleDetail opts) samps = Inr ss" "length ss = length samps"
    by blast
  from mapE_pointwise [of "indicatorDetail opts" "\<lambda>x y. True" inds] indicatorDetail_Inr [OF h]
  obtain ins where ins: "mapE (indicatorDetail opts) inds = Inr ins" "length ins = length inds"
    by blast
  show ?thesis
    using ss ins by (simp add: hashPayload_def Let_def)
qed

lemma processHashResults_succeeds:
  "succeedsWith r objs \<Longrightarrow> processHashResults r = Succeeded objs"
  by (auto simp: succeedsWith_def processHashResults_def)

lemma hashCallback_both_succeeded:
  "hashCallback e opts sf (Succeeded inds) (Succeeded samps) =
     (case hashPayload e opts inds samps of Inl x \<Rightarrow> Threw x | Inr p \<Rightarrow> Succeeded [p])"
  by (simp add: hashCallback_def afterFirst_def)

text \<open>
  Claim C4. A hash lookup whose two searches both succeed ends with exactly one result,
  whichever reply arrives first; its \<open>data\<close> is \<open>null\<close> exactly when both searches
  return no record, and otherwise it is one merged record: hash details holding one
  entry per sample and per indicator, with the merged summary.
\<close>

theorem lookupHash_single_result:
  assumes "getHashUri (hashType e) (entityValue e) opts = Inr ui"
    and "getHashSampleUri (hashType e) (entityValue e) opts = Inr us"
    and "succeedsWith (http ui) inds"
    and "succeedsWith (http us) samps"
  shows "\<exists>r. lookupHash http sf e opts = Inr ([ui, us], Succeeded [r]) \<and>
           entity r = e \<and> displayValue r = None \<and>
           (data r = None \<longleftrightarrow> inds = [] \<and> samps = []) \<and>
           (\<forall>d. data r = Some d \<longrightarrow>
              (\<exists>hd. details d = HashDetails hd \<and> length (hashSamples hd) = length samps \<and>
                 length (hashIndicators hd) = length inds \<and> summary d = createHashTags hd))"
proof -
  from assms(1) obtain h where h: "getFormattedHostname opts = Inr h"
    using host_of_getHashUri by blast
  from hashPayload_Inr [OF h, of e inds samps] obtain r where
    r: "hashPayload e opts inds samps = Inr r \<and> entity r = e \<and> displayValue r = None \<and>
           (data r = None \<longleftrightarrow> inds = [] \<and> samps = []) \<and>
           (\<forall>d. data r = Some d \<longrightarrow>
              (\<exists>hd. details d = HashDetails hd \<and> length (hashSamples hd) = length samps \<and>
                 length (hashIndicators hd) = length inds \<and> summary d = createHashTags hd))" ..
  have "lookupHash http sf e opts = Inr ([ui, us], Succeeded [r])"
    using assms r
    by (simp add: lookupHash_def processHashResults_succeeds hashCallback_both_succeeded)
  then show ?thesis using r by (intro exI [of _ r]) simp
qed

lemma example_getHashUri:
  "getHashUri (hashType (md5Entity ''D41D8CD98F00B204E9800998ECF8427E''))
     (entityValue (md5Entity ''D41D8CD98F00B204E9800998ECF8427E'')) exampleOptions
     = Inr hashIndicatorsUri"
  by code_simp

lemma example_getHashSampleUri:
  "getHashSampleUri (hashType (md5Entity ''D41D8CD98F00B204E9800998ECF8427E''))
     (entityValue (md5Entity ''D41D8CD98F00B204E9800998ECF8427E'')) exampleOptions
     = Inr hashSamplesUri"
  by code_simp

lemma hash_uris_differ: "hashIndicatorsUri \<noteq> hashSamplesUri"
  by (simp add: hashIndicatorsUri_def hashSamplesUri_def)

theorem lookupHash_single_result_witness:
  "(\<exists>r. lookupHash (\<lambda>uri. okReply []) True (md5Entity ''D41D8CD98F00B204E9800998ECF8427E'')
          exampleOptions
        = Inr ([hashIndicatorsUri, hashSamplesUri], Succeeded [r]) \<and> data r = None)
   \<and> (\<exists>r. lookupHash oneSampleHttp False (md5Entity ''D41D8CD98F00B204E9800998ECF8427E'')
          exampleOptions
        = Inr ([hashIndicatorsUri, hashSamplesUri], Succeeded [r]) \<and> data r \<noteq> None)"
proof (intro conjI)
  from lookupHash_single_result [OF example_getHashUri example_getHashSampleUri,
      of "\<lambda>uri. okReply []" "[]" "[]" True]
    succeedsWith_okReply [of "[]"]
  show "\<exists>r. lookupHash (\<lambda>uri. okReply []) True (md5Entity ''D41D8CD98F00B204E9800998ECF8427E'')
          exampleOptions
        = Inr ([hashIndicatorsUri, hashSamplesUri], Succeeded [r]) \<and> data r = None"
    by auto
next
  have i: "succeedsWith (oneSampleHttp hashIndicatorsUri) []"
    using succeedsWith_okReply [of "[]"] hash_uris_differ by (simp add: oneSampleHttp_def)
  have s: "succeedsWith (oneSampleHttp hashSamplesUri) [sampleRecord]"
    using succeedsWith_okReply [of "[sampleRecord]"] by (simp add: oneSampleHttp_def)
  from lookupHash_single_result [OF example_getHashUri example_getHashSampleUri i s, of False]
  show "\<exists>r. lookupHash oneSampleHttp False (md5Entity ''D41D8CD98F00B204E9800998ECF8427E'')
          exampleOptions
        = Inr ([hashIndicatorsUri, hashSamplesUri], Succeeded [r]) \<and> data r \<noteq> None"
    by auto
qed

section \<open>Properties of URL construction\<close>

lemma endsWith_slash: "endsWith (h @ ''/'') ''/''"
  by (simp add: endsWith_def)

lemma substring_prefix: "substring (h @ s) 0 (length h) = h"
  by (simp add: substring_def Let_def)

lemma getFormattedHostname_slash:
  "getFormattedHostname (opts\<lparr>hostname := JStr (h @ ''/'')\<rparr>) = Inr h"
  by (simp add: getFormattedHostname_def endsWith_slash substring_prefix)

lemma getFormattedHostname_plain:
  "hostname opts = JStr h \<Longrightarrow> \<not> endsWith h ''/'' \<Longrightarrow> getFormattedHostname opts = Inr h"
  by (simp add: getFormattedHostname_def)

lemma getUriAuthQueryParam_hostname [simp]:
  "getUriAuthQueryParam (opts\<lparr>hostname := v\<rparr>) = getUriAuthQueryParam opts"
  by (simp add: getUriAuthQueryParam_def)

text \<open>
  Claim C8. A hostname \<open>h\<close> without a trailing slash and the same hostname with one
  trailing slash, \<open>h/\<close>, are formatted to the same \<open>h\<close>, and every constructed URI and
  detail URL is the same string for both.
\<close>

theorem trailing_slash_stripped:
  assumes "hostname opts = JStr h" and "\<not> endsWith h ''/''"
  shows "getFormattedHostname (opts\<lparr>hostname := JStr (h @ ''/'')\<rparr>) = Inr h
    \<and> getFormattedHostname opts = Inr h
    \<and> getIpUri v (opts\<lparr>hostname := JStr (h @ ''/'')\<rparr>) = getIpUri v opts
    \<and> getCritsDomainUri v (opts\<lparr>hostname := JStr (h @ ''/'')\<rparr>) = getCritsDomainUri v opts
    \<and> getHashUri t v (opts\<lparr>hostname := JStr (h @ ''/'')\<rparr>) = getHashUri t v opts
    \<and> getHashSampleUri t v (opts\<lparr>hostname := JStr (h @ ''/'')\<rparr>) = getHashSampleUri t v opts
    \<and> getPatchDescriptionUri ty oid (opts\<lparr>hostname := JStr (h @ ''/'')\<rparr>)
        = getPatchDescriptionUri ty oid opts
    \<and> getCritsIpUrl (opts\<lparr>hostname := JStr (h @ ''/'')\<rparr>) obj = getCritsIpUrl opts obj
    \<and> getCritsDomainUrl (opts\<lparr>hostname := JStr (h @ ''/'')\<rparr>) obj = getCritsDomainUrl opts obj
    \<and> getCritsHashUrl (opts\<lparr>hostname := JStr (h @ ''/'')\<rparr>) obj = getCritsHashUrl opts obj
    \<and> getCritsSampleUrl (opts\<lparr>hostname := JStr (h @ ''/'')\<rparr>) obj = getCritsSampleUrl opts obj"
  using getFormattedHostname_slash [where opts = opts and h = h]
    getFormattedHostname_plain [OF assms]
  by (simp add: getIpUri_def getCritsDomainUri_def getHashUri_def getHashSampleUri_def
      getPatchDescriptionUri_def getCritsIpUrl_def getCritsDomainUrl_def getCritsHashUrl_def
      getCritsSampleUrl_def)

theorem trailing_slash_stripped_witness:
  "getFormattedHostname (exampleOptions\<lparr>hostname := JStr ''https://crits.example.com/''\<rparr>)
     = Inr ''https://crits.example.com''
   \<and> getFormattedHostname (exampleOptions\<lparr>hostname := JStr ''https://crits.example.com''\<rparr>)
     = Inr ''https://crits.example.com''
   \<and> getIpUri ''10.0.0.1'' (exampleOptions\<lparr>hostname := JStr ''https://crits.example.com/''\<rparr>)
     = getIpUri ''10.0.0.1'' (exampleOptions\<lparr>hostname := JStr ''https://crits.example.com''\<rparr>)
   \<and> getCritsSampleUrl (exampleOptions\<lparr>hostname := JStr ''https://crits.example.com/''\<rparr>) sampleRecord
     = getCritsSampleUrl (exampleOptions\<lparr>hostname := JStr ''https://crits.example.com''\<rparr>) sampleRecord"
proof -
  have a: "hostname (exampleOptions\<lparr>hostname := JStr ''https://crits.example.com''\<rparr>)
             = JStr ''https://crits.example.com''"
    by simp
  have b: "\<not> endsWith ''https://crits.example.com'' ''/''"
    by (simp add: endsWith_def)
  show ?thesis
    using trailing_slash_stripped [OF a b, of "''10.0.0.1''" "''MD5''" "''ips''" JNull sampleRecord]
    by simp
qed

section \<open>Properties of the merged summary of a hash lookup\<close>

lemma firstSeen_snoc:
  "firstSeen (xs @ [x]) = (if x \<in> set xs then firstSeen xs else firstSeen xs @ [x])"
  by (simp add: firstSeen_def)

lemma set_firstSeen [simp]: "set (firstSeen xs) = set xs"
  by (simp add: firstSeen_def)

lemma foldl_setAdd_firstSeen: "foldl setAdd [] xs = firstSeen xs"
proof (induction xs rule: rev_induct)
  case Nil
  show ?case by (simp add: firstSeen_def)
next
  case (snoc x xs)
  then show ?case by (simp add: firstSeen_snoc setAdd_def)
qed

lemma foldl_foldl_setAdd:
  "foldl (\<lambda>s d. foldl setAdd s (f d)) s ds = foldl setAdd s (concat (map f ds))"
  by (induction ds arbitrary: s) simp_all

lemma addNames_readNames:
  "addNames marker (readProp d k) s = foldl setAdd s (readNames marker k d)"
  by (simp add: addNames_def readNames_def foldl_map split: option.splits field.splits)

lemma addLabels_readLabels:
  "addLabels (readProp d k) s = foldl setAdd s (readLabels k d)"
  by (simp add: addLabels_def readLabels_def split: option.splits field.splits)

lemma uniqueSources_foldl:
  "uniqueSources (foldl collectTags st ds) =
     foldl setAdd (uniqueSources st) (concat (map (readNames createSourceMarker ''source'') ds))"
  by (induction ds arbitrary: st) (simp_all add: collectTags_def addNames_readNames)

lemma uniqueCampaigns_foldl:
  "uniqueCampaigns (foldl collectTags st ds) =
     foldl setAdd (uniqueCampaigns st) (concat (map (readNames createCampaignMarkger ''campaign'') ds))"
  by (induction ds arbitrary: st) (simp_all add: collectTags_def addNames_readNames)

lemma uniqueBucketLists_foldl:
  "uniqueBucketLists (foldl collectTags st ds) =
     foldl setAdd (uniqueBucketLists st) (concat (map (readLabels ''bucket_list'') ds))"
  by (induction ds arbitrary: st) (simp_all add: collectTags_def addLabels_readLabels)

text \<open>
  \<open>_createHashTags\<close> by itself: the count of samples when there is one at least, then
  the source tags, the campaign tags and the labels that its two loops read from the
  properties \<open>source\<close>, \<open>campaign\<close> and \<open>bucket_list\<close> of the samples followed by
  the indicators, each group in first-seen order without duplicates.
\<close>

lemma createHashTags_eq:
  "createHashTags dets =
     (if hashSamples dets = [] then [] else [decimal (length (hashSamples dets)) @ bugMarker]) @
     firstSeen (concat (map (readNames createSourceMarker ''source'')
                  (hashSamples dets @ hashIndicators dets))) @
     firstSeen (concat (map (readNames createCampaignMarkger ''campaign'')
                  (hashSamples dets @ hashIndicators dets))) @
     firstSeen (concat (map (readLabels ''bucket_list'')
                  (hashSamples dets @ hashIndicators dets)))"
proof -
  have cnt: "(if length (hashSamples dets) = 1 then [decimal (length (hashSamples dets)) @ bugMarker]
              else if length (hashSamples dets) > 1
                then [decimal (length (hashSamples dets)) @ bugMarker] else [])
             = (if hashSamples dets = [] then []
                else [decimal (length (hashSamples dets)) @ bugMarker])"
    by (cases "hashSamples dets") simp_all
  show ?thesis
    unfolding createHashTags_def Let_def
    by (simp only: cnt foldl_append [symmetric] uniqueSources_foldl uniqueCampaigns_foldl
          uniqueBucketLists_foldl tag_sets.simps foldl_setAdd_firstSeen)
qed

lemma sampleDetail_detailOf:
  "getFormattedHostname opts = Inr h \<Longrightarrow> \<exists>d. sampleDetail opts obj = Inr d \<and> detailOf obj d"
  by (simp add: sampleDetail_def getCritsSampleUrl_def getPatchDescriptionUri_def detailOf_def
      readProp_def)

lemma indicatorDetail_detailOf:
  "getFormattedHostname opts = Inr h \<Longrightarrow> \<exists>d. indicatorDetail opts obj = Inr d \<and> detailOf obj d"
  by (simp add: indicatorDetail_def getCritsHashUrl_def getPatchDescriptionUri_def detailOf_def
      readProp_def)

lemma readNames_detailOf:
  "list_all2 detailOf objs ds \<Longrightarrow>
   map (readNames createSourceMarker ''source'') ds
     = map (\<lambda>obj. nameTags createSourceMarker (source obj)) objs \<and>
   map (readNames createCampaignMarkger ''campaign'') ds
     = map (\<lambda>obj. nameTags createCampaignMarkger (campaign obj)) objs \<and>
   concat (map (readLabels ''bucket_list'') ds) = []"
  by (induction objs ds rule: list_all2_induct)
     (auto simp: detailOf_def readNames_def readLabels_def nameTags_def elements_def
        split: option.splits)

text \<open>
  The summary of a hash lookup: the detail objects that \<open>_lookupHash\<close> hands to
  \<open>_createHashTags\<close> keep the labels under \<open>bucketList\<close>, so the third group is
  always empty and the summary ends with the campaign tags.
\<close>

lemma hash_summary_eq:
  assumes h: "getFormattedHostname opts = Inr h"
    and nonempty: "inds \<noteq> [] \<or> samps \<noteq> []"
  shows "\<exists>r d. hashPayload e opts inds samps = Inr r \<and> data r = Some d \<and>
     summary d =
       (if samps = [] then [] else [decimal (length samps) @ bugMarker]) @
       firstSeen (concat (map (\<lambda>obj. nameTags createSourceMarker (source obj)) (samps @ inds))) @
       firstSeen (concat (map (\<lambda>obj. nameTags createCampaignMarkger (campaign obj)) (samps @ inds)))"
proof -
  from mapE_related [of "sampleDetail opts" detailOf samps] sampleDetail_detailOf [OF h]
  obtain ss where ss: "mapE (sampleDetail opts) samps = Inr ss" "list_all2 detailOf samps ss"
    by blast
  from mapE_related [of "indicatorDetail opts" detailOf inds] indicatorDetail_detailOf [OF h]
  obtain ins where ins: "mapE (indicatorDetail opts) inds = Inr ins" "list_all2 detailOf inds ins"
    by blast
  have both: "list_all2 detailOf (samps @ inds) (ss @ ins)"
    using ss(2) ins(2) by (rule list_all2_appendI)
  have len: "length ss = length samps" "ss = [] \<longleftrightarrow> samps = []"
    using ss(2) by (auto simp: list_all2_lengthD dest: list_all2_lengthD)
  show ?thesis
    using ss(1) ins(1) nonempty len readNames_detailOf [OF both]
    by (simp add: hashPayload_def Let_def createHashTags_eq firstSeen_def)
qed

text \<open>
  Claim C6. The merged summary is to hold the sample count, the unique source tags, the
  unique campaign tags and the unique bucket-list labels. For a hash whose sample search
  returns one record with the label \<open>apt\<close>, the summary of the lookup is the count and
  the source tag only: the label is missing, although the tags of the same record taken
  alone (\<open>_createTags\<close>) hold it.
\<close>

theorem hash_summary_omits_bucket_labels:
  "map_sum id (\<lambda>(uris, c). case c of Succeeded rs \<Rightarrow> map (\<lambda>r. map_option summary (data r)) rs | _ \<Rightarrow> [])
     (lookupHash oneSampleHttp False (md5Entity ''D41D8CD98F00B204E9800998ECF8427E'') exampleOptions)
     = Inr [Some [''1'' @ bugMarker, ''osint'' @ createSourceMarker]]
   \<and> bucket_list sampleRecord = Some [''apt'']
   \<and> createTags sampleRecord = [''osint'' @ createSourceMarker, ''apt'']"
  by code_simp

section \<open>Properties of the dispatcher\<close>

subsection \<open>The synchronous part\<close>

lemma valid_hostname: "validateOptions opts = None \<Longrightarrow> \<exists>h. getFormattedHostname opts = Inr h"
  by (auto simp: validateOptions_None_iff getFormattedHostname_def)

lemma lookup_Inr:
  "getFormattedHostname opts = Inr h \<Longrightarrow> \<exists>uris c. lookup w k kind e opts = Inr (uris, c)"
  by (cases kind)
     (simp_all add: lookup_def lookupIP_def lookupHash_def lookupDomains'_def getIpUri_def
        getHashUri_def getHashSampleUri_def getCritsDomainUri_def)

lemma length_started_le: "length (started w opts k es) \<le> length es"
  by (induction es arbitrary: k) (auto split: option.splits sum.splits intro: le_SucI)

lemma started_skip:
  "dispatch opts e = None \<Longrightarrow> started w opts k (xs @ e # ys) = started w opts k (xs @ ys)"
  by (induction xs arbitrary: k) (simp_all split: option.splits sum.splits)

lemma started_snoc:
  "getFormattedHostname opts = Inr h \<Longrightarrow>
   started w opts k (es @ [e]) =
     started w opts k es @
       (case dispatch opts e of
          None \<Rightarrow> []
        | Some kind \<Rightarrow>
            (case lookup w (k + length (started w opts k es)) kind e opts of
               Inl x \<Rightarrow> [] | Inr uc \<Rightarrow> [uc]))"
proof (induction es arbitrary: k)
  case Nil
  show ?case by (simp split: option.splits sum.splits)
next
  case (Cons a es)
  show ?case
  proof (cases "dispatch opts a")
    case None
    then show ?thesis using Cons.IH [OF Cons.prems, of k] by (simp cong: option.case_cong)
  next
    case (Some kind)
    from lookup_Inr [OF Cons.prems, of w k kind a] obtain uris c
      where l: "lookup w k kind a opts = Inr (uris, c)" by blast
    show ?thesis using Some l Cons.IH [OF Cons.prems, of "Suc k"]
      by (simp cong: option.case_cong)
  qed
qed

lemma iterateeDone_None_early:
  "completed st + 1 < len \<Longrightarrow> iterateeDone len None st = st\<lparr>completed := completed st + 1\<rparr>"
  by (simp add: iterateeDone_def Let_def)

lemma fold_iteratee_prefix:
  assumes h: "getFormattedHostname opts = Inr h"
  shows "uncaught st = None \<Longrightarrow> completed st + length es < len \<Longrightarrow>
     foldl (iteratee w opts len) st es =
       st\<lparr>requests := requests st @ concat (map fst (started w opts (length (pending st)) es)),
          pending := pending st @ map snd (started w opts (length (pending st)) es),
          completed := completed st + (length es - length (started w opts (length (pending st)) es))\<rparr>"
proof (induction es arbitrary: st)
  case Nil
  show ?case by simp
next
  case (Cons e es)
  show ?case
  proof (cases "dispatch opts e")
    case None
    have step: "iteratee w opts len st e = st\<lparr>completed := completed st + 1\<rparr>"
      using None Cons.prems by (simp add: iteratee_def iterateeDone_None_early)
    have le: "length (started w opts (length (pending st)) es) \<le> length es"
      by (rule length_started_le)
    show ?thesis
      using None Cons.prems le
        Cons.IH [of "st\<lparr>completed := completed st + 1\<rparr>"]
      by (simp add: step Suc_diff_le)
  next
    case (Some kind)
    from lookup_Inr [OF h, of w "length (pending st)" kind e] obtain uris c
      where l: "lookup w (length (pending st)) kind e opts = Inr (uris, c)" by blast
    have step: "iteratee w opts len st e =
        st\<lparr>requests := requests st @ uris, pending := pending st @ [c]\<rparr>"
      using Some l Cons.prems by (simp add: iteratee_def)
    show ?thesis
      using Some l Cons.prems
        Cons.IH [of "st\<lparr>requests := requests st @ uris, pending := pending st @ [c]\<rparr>"]
      by (simp add: step)
  qed
qed

lemma startAll_closed:
  assumes h: "getFormattedHostname opts = Inr h"
  shows "startAll w es opts =
     \<lparr> requests = concat (map fst (started w opts 0 es)),
       pending = map snd (started w opts 0 es),
       lookupResults = [],
       completed = length es - length (started w opts 0 es),
       callback = (if started w opts 0 es = [] then Some (Called None (Some [])) else None),
       uncaught = None \<rparr>"
proof (cases es rule: rev_cases)
  case Nil
  then show ?thesis by (simp add: startAll_def initial_def)
next
  case (snoc es' e)
  let ?L = "started w opts 0 es'"
  let ?st = "foldl (iteratee w opts (Suc (length es'))) initial es'"
  have pre: "?st = \<lparr> requests = concat (map fst ?L), pending = map snd ?L, lookupResults = [],
       completed = length es' - length ?L, callback = None, uncaught = None \<rparr>"
    using fold_iteratee_prefix [OF h, of initial es' "Suc (length es')" w]
    by (simp add: initial_def)
  have le: "length ?L \<le> length es'" by (rule length_started_le)
  have all: "startAll w (es' @ [e]) opts = iteratee w opts (Suc (length es')) ?st e"
    by (simp add: startAll_def)
  show ?thesis
  proof (cases "dispatch opts e")
    case None
    have "length es' - length ?L = length es' \<longleftrightarrow> length ?L = 0" using le by arith
    then have "length es' - length ?L = length es' \<longleftrightarrow> ?L = []" by simp
    then show ?thesis
      using None le snoc started_snoc [OF h, of w 0 es' e]
      by (simp add: all pre iteratee_def iterateeDone_def Let_def Suc_diff_le)
  next
    case (Some kind)
    from lookup_Inr [OF h, of w "length ?L" kind e] obtain uris c
      where l: "lookup w (length ?L) kind e opts = Inr (uris, c)" by blast
    show ?thesis
      using Some l le snoc started_snoc [OF h, of w 0 es' e]
      by (simp add: all pre iteratee_def)
  qed
qed

subsection \<open>The completions\<close>

lemma foldl_push: "foldl (\<lambda>acc r. acc @ [r]) xs ys = xs @ ys"
  by (induction ys arbitrary: xs) simp_all

lemma onLookupDone_Succeeded:
  "onLookupDone len (Succeeded rs) st =
     iterateeDone len None (st\<lparr>lookupResults := lookupResults st @ rs\<rparr>)"
  by (simp add: onLookupDone_def foldl_push)

lemma runCompletions_append:
  "runCompletions len (xs @ ys) st = runCompletions len ys (runCompletions len xs st)"
proof (induction xs arbitrary: st)
  case Nil
  show ?case by simp
next
  case (Cons k xs)
  show ?case
  proof (cases "uncaught st = None")
    case True
    then show ?thesis using Cons.IH by simp
  next
    case False
    then show ?thesis by (cases ys) simp_all
  qed
qed

lemma resultsSupplied_iterateeDone:
  "resultsSupplied st \<Longrightarrow> resultsSupplied (iterateeDone len err st)"
  by (auto simp: resultsSupplied_def iterateeDone_def Let_def split: option.splits)

lemma resultsSupplied_iteratee:
  "resultsSupplied st \<Longrightarrow> resultsSupplied (iteratee w opts len st e)"
proof (cases "dispatch opts e")
  case None
  assume "resultsSupplied st"
  then show ?thesis
    using None resultsSupplied_iterateeDone [of st len None] by (simp add: iteratee_def)
next
  case (Some kind)
  assume "resultsSupplied st"
  then show ?thesis
    using Some by (auto simp: iteratee_def resultsSupplied_def split: sum.splits)
qed

lemma resultsSupplied_foldl:
  "resultsSupplied st \<Longrightarrow> resultsSupplied (foldl (iteratee w opts len) st es)"
  by (induction es arbitrary: st) (simp_all add: resultsSupplied_iteratee)

lemma resultsSupplied_onLookupDone:
  "resultsSupplied st \<Longrightarrow> resultsSupplied (onLookupDone len c st)"
proof (cases c)
  case (Threw x)
  assume "resultsSupplied st"
  then show ?thesis using Threw by (simp add: onLookupDone_def resultsSupplied_def)
next
  case (Failed msg)
  assume "resultsSupplied st"
  then show ?thesis
    using Failed resultsSupplied_iterateeDone [of st len "Some msg"]
    by (simp add: onLookupDone_def resultsSupplied_def)
next
  case (Succeeded rs)
  assume "resultsSupplied st"
  then have "resultsSupplied (st\<lparr>lookupResults := lookupResults st @ rs\<rparr>)"
    by (simp add: resultsSupplied_def)
  then show ?thesis
    using Succeeded by (simp add: onLookupDone_Succeeded resultsSupplied_iterateeDone)
qed

lemma resultsSupplied_runCompletions:
  "resultsSupplied st \<Longrightarrow> resultsSupplied (runCompletions len ks st)"
  by (induction ks arbitrary: st) (simp_all add: resultsSupplied_onLookupDone)

lemma resultsSupplied_startAll: "resultsSupplied (startAll w es opts)"
proof -
  have "resultsSupplied initial" by (simp add: resultsSupplied_def initial_def)
  then have "resultsSupplied (foldl (iteratee w opts (length es)) initial es)"
    by (rule resultsSupplied_foldl)
  moreover have "resultsSupplied (initial\<lparr>callback := Some (Called None (Some []))\<rparr>)"
    by (simp add: resultsSupplied_def)
  ultimately show ?thesis by (simp add: startAll_def)
qed

lemma callback_iterateeDone:
  "callback st = Some c \<Longrightarrow> callback (iterateeDone len err st) = Some c"
  by (simp add: iterateeDone_def Let_def split: option.splits)

lemma callback_onLookupDone:
  "callback st = Some c \<Longrightarrow> callback (onLookupDone len x st) = Some c"
  by (cases x) (simp_all add: onLookupDone_def callback_iterateeDone)

lemma callback_runCompletions:
  "callback st = Some c \<Longrightarrow> callback (runCompletions len ks st) = Some c"
  by (induction ks arbitrary: st) (simp_all add: callback_onLookupDone)

lemma pending_iterateeDone [simp]: "pending (iterateeDone len err st) = pending st"
  by (simp add: iterateeDone_def Let_def split: option.splits)

lemma pending_onLookupDone [simp]: "pending (onLookupDone len x st) = pending st"
  by (cases x) (simp_all add: onLookupDone_def)

lemma run_successes:
  "uncaught st = None \<Longrightarrow> callback st = None \<Longrightarrow> completed st + length ks < len \<Longrightarrow>
   \<forall>j \<in> set ks. j < length (pending st) \<and> (\<exists>rs. pending st ! j = Succeeded rs) \<Longrightarrow>
   runCompletions len ks st =
     st\<lparr>lookupResults := lookupResults st @ concat (map (\<lambda>j. resultsOf (pending st ! j)) ks),
        completed := completed st + length ks\<rparr>"
proof (induction ks arbitrary: st)
  case Nil
  show ?case by simp
next
  case (Cons k ks)
  from Cons.prems(4) obtain rs where k: "k < length (pending st)" "pending st ! k = Succeeded rs"
    by auto
  let ?st = "st\<lparr>lookupResults := lookupResults st @ rs, completed := completed st + 1\<rparr>"
  have step: "onLookupDone len (Succeeded rs) st = ?st"
    using Cons.prems(2,3) by (simp add: onLookupDone_Succeeded iterateeDone_def Let_def)
  have "runCompletions len ks ?st =
     ?st\<lparr>lookupResults := lookupResults ?st @ concat (map (\<lambda>j. resultsOf (pending ?st ! j)) ks),
        completed := completed ?st + length ks\<rparr>"
    using Cons.prems by (intro Cons.IH) simp_all
  then show ?case
    using k Cons.prems(1) by (simp add: step resultsOf_def)
qed

lemma iterateeDone_shift:
  "iterateeDone (len + d) err (st\<lparr>completed := completed st + d\<rparr>) =
     (iterateeDone len err st)\<lparr>completed := completed (iterateeDone len err st) + d\<rparr>"
  by (cases err) (simp_all add: iterateeDone_def Let_def)

lemma onLookupDone_shift:
  "onLookupDone (len + d) c (st\<lparr>completed := completed st + d\<rparr>) =
     (onLookupDone len c st)\<lparr>completed := completed (onLookupDone len c st) + d\<rparr>"
proof (cases c)
  case (Threw x)
  then show ?thesis by (simp add: onLookupDone_def)
next
  case (Failed msg)
  then show ?thesis
    using iterateeDone_shift [of len d "Some msg" st] by (simp add: onLookupDone_def)
next
  case (Succeeded rs)
  then show ?thesis
    by (simp add: onLookupDone_Succeeded iterateeDone_def Let_def)
qed

lemma uncaught_iterateeDone [simp]: "uncaught (iterateeDone len err st) = uncaught st"
  by (simp add: iterateeDone_def Let_def split: option.splits)

lemma runCompletions_shift:
  "runCompletions (len + d) ks (st\<lparr>completed := completed st + d\<rparr>) =
     (runCompletions len ks st)\<lparr>completed := completed (runCompletions len ks st) + d\<rparr>"
proof (induction ks arbitrary: st)
  case Nil
  show ?case by simp
next
  case (Cons k ks)
  show ?case
    using Cons.IH [of "onLookupDone len (pending st ! k) st"] Cons.IH [of st]
    by (simp add: onLookupDone_shift)
qed

lemma dispatch_None_iff:
  "dispatch opts e = None \<longleftrightarrow>
     \<not> (isIP e \<and> lookupIps opts) \<and>
     \<not> ((isMD5 e \<or> isSHA1 e \<or> isSHA256 e) \<and> lookupHashes opts) \<and>
     \<not> (isDomain e \<and> lookupDomains opts)"
  by (auto simp: dispatch_def)

lemma runCompletions_no_pending: "pending st = [] \<Longrightarrow> runCompletions len ks st = st"
  by (induction ks) simp_all

lemma doLookup_skip:
  assumes d: "dispatch opts e = None" and valid: "validateOptions opts = None"
  shows "doLookup w (xs @ e # ys) opts =
     (doLookup w (xs @ ys) opts)\<lparr>completed := completed (doLookup w (xs @ ys) opts) + 1\<rparr>"
proof -
  from valid obtain h where h: "getFormattedHostname opts = Inr h"
    using valid_hostname by blast
  have le: "length (started w opts 0 (xs @ ys)) \<le> length xs + length ys"
    using length_started_le [of w opts 0 "xs @ ys"] by simp
  have st: "startAll w (xs @ e # ys) opts =
      (startAll w (xs @ ys) opts)\<lparr>completed := completed (startAll w (xs @ ys) opts) + 1\<rparr>"
    using le by (simp add: startAll_closed [OF h] started_skip [OF d] Suc_diff_le)
  show ?thesis
    using runCompletions_shift [of "length (xs @ ys)" 1 "completionOrder w" "startAll w (xs @ ys) opts"]
    by (simp add: doLookup_def valid st)
qed

text \<open>
  Claim C9. An entity that is not an IP with \<open>lookupIps\<close>, not an MD5, SHA1 or SHA256
  hash with \<open>lookupHashes\<close> and not a domain with \<open>lookupDomains\<close> is skipped by the
  dispatcher: wherever it stands in a batch, the batch requests the same URIs, starts the
  same lookups, collects the same results, calls back the same way and raises the same
  exception as the batch without it; alone in a batch, it gives no request, no result
  and the callback \<open>cb(null, [])\<close>.
\<close>

theorem unmatched_entity_skipped:
  assumes "\<not> (isIP e \<and> lookupIps opts)"
    and "\<not> ((isMD5 e \<or> isSHA1 e \<or> isSHA256 e) \<and> lookupHashes opts)"
    and "\<not> (isDomain e \<and> lookupDomains opts)"
  shows "dispatch opts e = None
    \<and> requests (doLookup w (xs @ e # ys) opts) = requests (doLookup w (xs @ ys) opts)
    \<and> pending (doLookup w (xs @ e # ys) opts) = pending (doLookup w (xs @ ys) opts)
    \<and> lookupResults (doLookup w (xs @ e # ys) opts) = lookupResults (doLookup w (xs @ ys) opts)
    \<and> callback (doLookup w (xs @ e # ys) opts) = callback (doLookup w (xs @ ys) opts)
    \<and> uncaught (doLookup w (xs @ e # ys) opts) = uncaught (doLookup w (xs @ ys) opts)
    \<and> (validateOptions opts = None \<longrightarrow>
         requests (doLookup w [e] opts) = [] \<and> lookupResults (doLookup w [e] opts) = [] \<and>
         callback (doLookup w [e] opts) = Some (Called None (Some [])) \<and>
         uncaught (doLookup w [e] opts) = None)"
proof -
  have d: "dispatch opts e = None" using assms by (simp add: dispatch_None_iff)
  show ?thesis
  proof (cases "validateOptions opts")
    case None
    have single: "doLookup w [e] opts =
        (doLookup w [] opts)\<lparr>completed := completed (doLookup w [] opts) + 1\<rparr>"
      using doLookup_skip [OF d None, of w "[]" "[]"] by simp
    have empty: "doLookup w [] opts = initial\<lparr>callback := Some (Called None (Some []))\<rparr>"
      by (simp add: doLookup_def None startAll_def initial_def runCompletions_no_pending)
    show ?thesis
      using d None by (simp add: doLookup_skip [OF d None] single empty initial_def)
  next
    case (Some msg)
    then show ?thesis using d by (simp add: doLookup_invalid)
  qed
qed

lemma distinct_in_range: "distinct xs \<Longrightarrow> \<forall>j \<in> set xs. j < n \<Longrightarrow> length xs \<le> n"
proof -
  assume d: "distinct xs" and r: "\<forall>j \<in> set xs. j < n"
  have "card (set xs) \<le> card {..<n}" using r by (intro card_mono) auto
  then show ?thesis using d by (simp add: distinct_card)
qed

lemma first_error_run:
  assumes valid: "validateOptions opts = None"
    and order: "completionOrder w = pre @ k # post"
    and dist: "distinct (pre @ [k])"
    and inrange: "\<forall>j \<in> set (pre @ [k]). j < length (pending (startAll w entities opts))"
    and succ: "\<forall>j \<in> set pre. \<exists>rs. pending (startAll w entities opts) ! j = Succeeded rs"
    and fail: "pending (startAll w entities opts) ! k = Failed msg" "msg \<noteq> []"
  shows "callback (doLookup w entities opts) =
     Some (Called (Some msg)
       (Some (concat (map (\<lambda>j. resultsOf (pending (startAll w entities opts) ! j)) pre))))"
proof -
  let ?st0 = "startAll w entities opts"
  let ?len = "length entities"
  from valid obtain h where h: "getFormattedHostname opts = Inr h"
    using valid_hostname by blast
  let ?L = "started w opts 0 entities"
  have k: "k < length (pending ?st0)" using inrange by simp
  have pend: "length (pending ?st0) = length ?L" by (simp add: startAll_closed [OF h])
  have nonempty: "?L \<noteq> []" using k pend by auto
  have st0: "uncaught ?st0 = None" "callback ?st0 = None" "lookupResults ?st0 = []"
    "completed ?st0 = ?len - length ?L"
    using nonempty by (simp_all add: startAll_closed [OF h])
  have "length (pre @ [k]) \<le> length (pending ?st0)"
    using distinct_in_range [OF dist inrange] .
  then have few: "completed ?st0 + length pre < ?len"
    using st0(4) pend length_started_le [of w opts 0 entities] by simp
  have sux: "\<forall>j \<in> set pre. j < length (pending ?st0) \<and> (\<exists>rs. pending ?st0 ! j = Succeeded rs)"
    using inrange succ by simp
  let ?st1 = "runCompletions ?len pre ?st0"
  have st1: "?st1 = ?st0\<lparr>lookupResults := lookupResults ?st0 @
                 concat (map (\<lambda>j. resultsOf (pending ?st0 ! j)) pre),
               completed := completed ?st0 + length pre\<rparr>"
    using run_successes [OF st0(1) st0(2) few sux] .
  have st1': "uncaught ?st1 = None" "callback ?st1 = None" "pending ?st1 = pending ?st0"
    "lookupResults ?st1 = concat (map (\<lambda>j. resultsOf (pending ?st0 ! j)) pre)"
    using st0 by (simp_all add: st1)
  have "callback (onLookupDone ?len (pending ?st1 ! k) ?st1) =
      Some (Called (Some msg) (Some (lookupResults ?st1)))"
    using fail st1'(2) by (simp add: st1'(3) onLookupDone_def iterateeDone_def)
  then have "callback (runCompletions ?len (k # post) ?st1) =
      Some (Called (Some msg) (Some (lookupResults ?st1)))"
    using st1'(1) k by (simp add: st1'(3) callback_runCompletions)
  then show ?thesis
    by (simp add: doLookup_def valid order runCompletions_append st1'(4))
qed

text \<open>
  With valid options, when every started lookup ends exactly once and all succeed,
  \<open>cb\<close> is called with \<open>null\<close> and the results in the order in which the lookups
  ended; and when every started lookup ends by \<open>cb(null, results)\<close> or by a non-empty
  error, \<open>cb\<close> is called.
\<close>

lemma all_succeed_run:
  assumes valid: "validateOptions opts = None"
    and dist: "distinct (completionOrder w)"
    and all: "set (completionOrder w) = {..<length (pending (startAll w entities opts))}"
    and succ: "\<forall>c \<in> set (pending (startAll w entities opts)). \<exists>rs. c = Succeeded rs"
  shows "callback (doLookup w entities opts) =
     Some (Called None
       (Some (concat (map (\<lambda>j. resultsOf (pending (startAll w entities opts) ! j))
          (completionOrder w)))))"
proof -
  let ?st0 = "startAll w entities opts"
  let ?len = "length entities"
  let ?L = "started w opts 0 entities"
  from valid obtain h where h: "getFormattedHostname opts = Inr h"
    using valid_hostname by blast
  have pend: "length (pending ?st0) = length ?L" by (simp add: startAll_closed [OF h])
  have lenord: "length (completionOrder w) = length ?L"
    using distinct_card [OF dist] all pend by simp
  show ?thesis
  proof (cases "?L = []")
    case True
    then have "completionOrder w = []" using lenord by simp
    then show ?thesis
      using True by (simp add: doLookup_def valid startAll_closed [OF h])
  next
    case False
    then have "completionOrder w \<noteq> []" using lenord by auto
    then obtain pre k where ord: "completionOrder w = pre @ [k]"
      by (metis rev_exhaust)
    have st0: "uncaught ?st0 = None" "callback ?st0 = None" "lookupResults ?st0 = []"
      "completed ?st0 = ?len - length ?L"
      using False by (simp_all add: startAll_closed [OF h])
    have few: "completed ?st0 + length pre < ?len"
      using st0(4) lenord ord length_started_le [of w opts 0 entities] by simp
    have inr: "\<forall>j \<in> set (completionOrder w). j < length (pending ?st0) \<and>
        (\<exists>rs. pending ?st0 ! j = Succeeded rs)"
      using all succ by (auto simp: all)
    then have sux: "\<forall>j \<in> set pre. j < length (pending ?st0) \<and>
        (\<exists>rs. pending ?st0 ! j = Succeeded rs)"
      by (simp add: ord)
    from inr obtain rs where k: "k < length (pending ?st0)" "pending ?st0 ! k = Succeeded rs"
      by (auto simp: ord)
    let ?st1 = "runCompletions ?len pre ?st0"
    have st1: "?st1 = ?st0\<lparr>lookupResults := lookupResults ?st0 @
                 concat (map (\<lambda>j. resultsOf (pending ?st0 ! j)) pre),
               completed := completed ?st0 + length pre\<rparr>"
      using run_successes [OF st0(1) st0(2) few sux] .
    have fin: "completed ?st0 + length pre + 1 = ?len"
      using st0(4) lenord ord length_started_le [of w opts 0 entities] by simp
    have st1': "uncaught ?st1 = None" "pending ?st1 = pending ?st0"
      using st0 by (simp_all add: st1)
    have "callback (onLookupDone ?len (Succeeded rs) ?st1) =
        Some (Called None (Some (concat (map (\<lambda>j. resultsOf (pending ?st0 ! j)) pre) @ rs)))"
      using st0 fin by (simp add: st1 onLookupDone_Succeeded iterateeDone_def Let_def)
    then have "callback (runCompletions ?len [k] ?st1) =
        Some (Called None (Some (concat (map (\<lambda>j. resultsOf (pending ?st0 ! j)) pre) @ rs)))"
      using k st1' by simp
    then show ?thesis
      using k by (simp add: doLookup_def valid ord runCompletions_append resultsOf_def)
  qed
qed

lemma callback_called:
  assumes valid: "validateOptions opts = None"
    and dist: "distinct (completionOrder w)"
    and all: "set (completionOrder w) = {..<length (pending (startAll w entities opts))}"
    and nothrow: "\<forall>c \<in> set (pending (startAll w entities opts)).
        (\<exists>rs. c = Succeeded rs) \<or> (\<exists>msg. c = Failed msg \<and> msg \<noteq> [])"
  shows "\<exists>err rs. callback (doLookup w entities opts) = Some (Called err (Some rs))"
proof (cases "\<forall>c \<in> set (pending (startAll w entities opts)). \<exists>rs. c = Succeeded rs")
  case True
  from all_succeed_run [OF valid dist all True] show ?thesis by blast
next
  case False
  let ?P = "pending (startAll w entities opts)"
  let ?bad = "\<lambda>j. \<not> (\<exists>rs. ?P ! j = Succeeded rs)"
  from False obtain c where c: "c \<in> set ?P" "\<not> (\<exists>rs. c = Succeeded rs)" by blast
  then obtain i where i: "i < length ?P" "?P ! i = c" by (auto simp: in_set_conv_nth)
  then have "i \<in> set (completionOrder w)" using all by simp
  then have "\<exists>j \<in> set (completionOrder w). ?bad j" using i c(2) by blast
  then obtain pre k post where split: "completionOrder w = pre @ k # post" "?bad k"
      "\<forall>j \<in> set pre. \<not> ?bad j"
    using split_list_first_prop [of "completionOrder w" ?bad] by blast
  have kin: "k < length ?P" using all split(1) by auto
  then have "?P ! k \<in> set ?P" by simp
  with nothrow split(2) obtain msg where msg: "?P ! k = Failed msg" "msg \<noteq> []" by blast
  have d: "distinct (pre @ [k])" using dist split(1) by simp
  have r: "\<forall>j \<in> set (pre @ [k]). j < length ?P" using all split(1) by auto
  have s: "\<forall>j \<in> set pre. \<exists>rs. ?P ! j = Succeeded rs" using split(3) by simp
  from first_error_run [OF valid split(1) d r s msg] show ?thesis by blast
qed

text \<open>
  Claim C10. When option validation fails, \<open>doLookup\<close> calls \<open>cb\<close> with the
  message alone, the second parameter being left undefined; when validation passes,
  every call of \<open>cb\<close> (with \<open>null\<close> or with the error of a lookup) carries a list of
  results as second argument, and \<open>cb\<close> is so called whenever every started lookup
  ends, once, with results or with a non-empty error.
\<close>

theorem callback_arguments:
  "(validateOptions opts = Some msg \<longrightarrow>
      callback (doLookup w entities opts) = Some (Called (Some msg) None))
   \<and> (validateOptions opts = None \<and> callback (doLookup w entities opts) = Some (Called err res) \<longrightarrow>
        (\<exists>rs. res = Some rs))
   \<and> (validateOptions opts = None \<and> distinct (completionOrder w) \<and>
        set (completionOrder w) = {..<length (pending (startAll w entities opts))} \<and>
        (\<forall>c \<in> set (pending (startAll w entities opts)).
            (\<exists>rs. c = Succeeded rs) \<or> (\<exists>m. c = Failed m \<and> m \<noteq> [])) \<longrightarrow>
        (\<exists>e rs. callback (doLookup w entities opts) = Some (Called e (Some rs))))"
proof (intro conjI impI)
  assume "validateOptions opts = Some msg"
  then show "callback (doLookup w entities opts) = Some (Called (Some msg) None)"
    by (simp add: doLookup_def initial_def)
next
  assume a: "validateOptions opts = None \<and> callback (doLookup w entities opts) = Some (Called err res)"
  have "resultsSupplied (doLookup w entities opts)"
    using a by (simp add: doLookup_def resultsSupplied_runCompletions resultsSupplied_startAll)
  then show "\<exists>rs. res = Some rs"
    using a by (cases res) (auto simp: resultsSupplied_def)
next
  assume a: "validateOptions opts = None \<and> distinct (completionOrder w) \<and>
        set (completionOrder w) = {..<length (pending (startAll w entities opts))} \<and>
        (\<forall>c \<in> set (pending (startAll w entities opts)).
            (\<exists>rs. c = Succeeded rs) \<or> (\<exists>m. c = Failed m \<and> m \<noteq> []))"
  then show "\<exists>e rs. callback (doLookup w entities opts) = Some (Called e (Some rs))"
    using callback_called [of opts w entities] by blast
qed

text \<open>
  Claim C1, as amended. With valid options, when a started lookup reports a non-empty
  error and every lookup that ended before it succeeded, \<open>doLookup\<close> calls \<open>cb\<close> with
  that error and with the results that the earlier lookups pushed onto
  \<open>lookupResults\<close>: the partial results are handed over with the error, not discarded.
\<close>

theorem first_error_with_partial_results:
  assumes valid: "validateOptions opts = None"
    and order: "completionOrder w = pre @ k # post"
    and dist: "distinct (pre @ [k])"
    and inrange: "\<forall>j \<in> set (pre @ [k]). j < length (pending (startAll w entities opts))"
    and succ: "\<forall>j \<in> set pre. \<exists>rs. pending (startAll w entities opts) ! j = Succeeded rs"
    and fail: "pending (startAll w entities opts) ! k = Failed msg" "msg \<noteq> []"
  shows "callback (doLookup w entities opts) =
     Some (Called (Some msg)
       (Some (concat (map (\<lambda>j. resultsOf (pending (startAll w entities opts) ! j)) pre))))"
  using assms by (rule first_error_run)

theorem first_error_with_partial_results_witness:
  "validateOptions exampleOptions = None
   \<and> pending (startAll exampleWorld [ipEntity ''10.0.0.1'', domainEntity ''evil.example'']
         exampleOptions)
       = [Succeeded [\<lparr> entity = ipEntity ''10.0.0.1'', displayValue = None, data = None \<rparr>],
          Failed ''ECONNREFUSED'']
   \<and> callback (doLookup exampleWorld [ipEntity ''10.0.0.1'', domainEntity ''evil.example'']
         exampleOptions)
       = Some (Called (Some ''ECONNREFUSED'')
           (Some [\<lparr> entity = ipEntity ''10.0.0.1'', displayValue = None, data = None \<rparr>]))"
proof -
  have valid: "validateOptions exampleOptions = None"
    by (simp add: validateOptions_def exampleOptions_def)
  have order: "completionOrder exampleWorld = [0] @ 1 # []"
    by (simp add: exampleWorld_def)
  have P: "pending (startAll exampleWorld [ipEntity ''10.0.0.1'', domainEntity ''evil.example'']
         exampleOptions)
       = [Succeeded [\<lparr> entity = ipEntity ''10.0.0.1'', displayValue = None, data = None \<rparr>],
          Failed ''ECONNREFUSED'']"
    by code_simp
  have "callback (doLookup exampleWorld [ipEntity ''10.0.0.1'', domainEntity ''evil.example'']
         exampleOptions)
       = Some (Called (Some ''ECONNREFUSED'')
           (Some (concat (map (\<lambda>j. resultsOf (pending (startAll exampleWorld
              [ipEntity ''10.0.0.1'', domainEntity ''evil.example''] exampleOptions) ! j)) [0]))))"
    by (rule first_error_with_partial_results [OF valid order, of _ "''ECONNREFUSED''"])
       (simp_all add: P)
  then show ?thesis using valid P by (simp add: resultsOf_def)
qed

text \<open>
  Claim C1, as stated, fails: of two IP lookups, the first ends with its one result (a
  miss), then the second is refused; \<open>cb\<close> receives the error together with the
  non-empty list of results.
\<close>

theorem error_with_partial_results_counterexample:
  "callback (doLookup exampleWorld [ipEntity ''10.0.0.1'', ipEntity ''10.0.0.2''] exampleOptions)
     = Some (Called (Some ''ECONNREFUSED'')
         (Some [\<lparr> entity = ipEntity ''10.0.0.1'', displayValue = None, data = None \<rparr>]))"
  by code_simp

theorem unmatched_entity_skipped_witness:
  "dispatch exampleOptions (urlEntity ''http://evil.example/a'') = None
   \<and> requests (doLookup exampleWorld
         [ipEntity ''10.0.0.1'', urlEntity ''http://evil.example/a'', ipEntity ''10.0.0.2'']
         exampleOptions)
       = requests (doLookup exampleWorld [ipEntity ''10.0.0.1'', ipEntity ''10.0.0.2'']
           exampleOptions)
   \<and> lookupResults (doLookup exampleWorld
         [ipEntity ''10.0.0.1'', urlEntity ''http://evil.example/a'', ipEntity ''10.0.0.2'']
         exampleOptions)
       = lookupResults (doLookup exampleWorld [ipEntity ''10.0.0.1'', ipEntity ''10.0.0.2'']
           exampleOptions)
   \<and> callback (doLookup exampleWorld
         [ipEntity ''10.0.0.1'', urlEntity ''http://evil.example/a'', ipEntity ''10.0.0.2'']
         exampleOptions)
       = callback (doLookup exampleWorld [ipEntity ''10.0.0.1'', ipEntity ''10.0.0.2'']
           exampleOptions)
   \<and> requests (doLookup exampleWorld [urlEntity ''http://evil.example/a''] exampleOptions) = []
   \<and> lookupResults (doLookup exampleWorld [urlEntity ''http://evil.example/a''] exampleOptions) = []
   \<and> callback (doLookup exampleWorld [urlEntity ''http://evil.example/a''] exampleOptions)
       = Some (Called None (Some []))"
proof -
  have valid: "validateOptions exampleOptions = None"
    by (simp add: validateOptions_def exampleOptions_def)
  show ?thesis
    using valid
      unmatched_entity_skipped [of "urlEntity ''http://evil.example/a''" exampleOptions
        exampleWorld "[ipEntity ''10.0.0.1'']" "[ipEntity ''10.0.0.2'']"]
    by (simp add: urlEntity_def)
qed

theorem callback_arguments_witness:
  "callback (doLookup exampleWorld [ipEntity ''10.0.0.1'']
       (exampleOptions\<lparr>hostname := JUndefined\<rparr>))
     = Some (Called (Some ''No hostname set'') None)
   \<and> callback (doLookup exampleWorld [ipEntity ''10.0.0.1''] exampleOptions)
     = Some (Called None
         (Some [\<lparr> entity = ipEntity ''10.0.0.1'', displayValue = None, data = None \<rparr>]))
   \<and> (\<exists>e rs. callback (doLookup exampleWorld [ipEntity ''10.0.0.1'', ipEntity ''10.0.0.2'']
         exampleOptions) = Some (Called e (Some rs)))"
proof -
  have invalid: "validateOptions (exampleOptions\<lparr>hostname := JUndefined\<rparr>) = Some ''No hostname set''"
    by (simp add: validateOptions_def)
  have valid: "validateOptions exampleOptions = None"
    by (simp add: validateOptions_def exampleOptions_def)
  have run: "callback (doLookup exampleWorld [ipEntity ''10.0.0.1''] exampleOptions)
     = Some (Called None
         (Some [\<lparr> entity = ipEntity ''10.0.0.1'', displayValue = None, data = None \<rparr>]))"
    by code_simp
  have P: "pending (startAll exampleWorld [ipEntity ''10.0.0.1'', ipEntity ''10.0.0.2'']
         exampleOptions)
       = [Succeeded [\<lparr> entity = ipEntity ''10.0.0.1'', displayValue = None, data = None \<rparr>],
          Failed ''ECONNREFUSED'']"
    by code_simp
  have order: "distinct (completionOrder exampleWorld)"
    "set (completionOrder exampleWorld) = {..<2}"
    by (auto simp: exampleWorld_def)
  have third: "\<exists>e rs. callback (doLookup exampleWorld [ipEntity ''10.0.0.1'', ipEntity ''10.0.0.2'']
         exampleOptions) = Some (Called e (Some rs))"
    using valid order
      callback_arguments [of exampleOptions "[]" exampleWorld
        "[ipEntity ''10.0.0.1'', ipEntity ''10.0.0.2'']" None None]
    by (simp add: P)
  show ?thesis
    using invalid valid run third
      callback_arguments [of "exampleOptions\<lparr>hostname := JUndefined\<rparr>" "''No hostname set''"
        exampleWorld "[ipEntity ''10.0.0.1'']"]
      callback_arguments [of exampleOptions "[]" exampleWorld "[ipEntity ''10.0.0.1'']" None
        "Some [\<lparr> entity = ipEntity ''10.0.0.1'', displayValue = None, data = None \<rparr>]"]
    by simp
qed

section \<open>Further properties\<close>

text \<open>
  The summary of the result that an IP or domain lookup shapes from one record is the
  tag list of that record.
\<close>

lemma summary_of_record:
  "ipResult e opts obj = Inr r \<Longrightarrow> map_option summary (data r) = Some (createTags obj)"
  "domainResult e opts obj = Inr r \<Longrightarrow> map_option summary (data r) = Some (createTags obj)"
  by (auto simp: ipResult_def domainResult_def split: sum.splits)

text \<open>Only one trailing slash is stripped: a second one stays.\<close>

lemma second_slash_kept:
  "getFormattedHostname (opts\<lparr>hostname := JStr (h @ ''//'')\<rparr>) = Inr (h @ ''/'')"
  using getFormattedHostname_slash [where opts = opts and h = "h @ ''/''"] by simp

end
